theory Spec2Isabelle
  imports Main
begin

section \<open>The metadata registry: data model\<close>

text \<open>
  The handlers of \<^verbatim>\<open>src/services/metadataService.ts\<close> work on four MongoDB
  collections (datasets, chunks, commonsFiles, authors) and on the Estuary blob store.
  A \<^verbatim>\<open>mongodb.ObjectId\<close> is an opaque handle; it is a natural number here.
  A JavaScript number that comes out of \<^verbatim>\<open>parseInt\<close> is either NaN or an integer.
\<close>

type_synonym oid = nat

datatype jsnumber = NaN | Num int

record dataset =
  ds_id :: oid
  uploader :: string
  published :: bool
  title :: string
  description :: string
  authors :: "oid list"
  chunkIds :: "oid list"
  ds_keywords :: "string list option"

record storage_ids =
  estuaryId :: jsnumber

record chunk =
  c_id :: oid
  datasetId :: oid
  fileIds :: "oid list"
  storageIds :: storage_ids

record commons_file =
  f_id :: oid
  chunkId :: oid
  filename :: string
  path :: string

record author =
  a_id :: oid
  a_name :: string

subsection \<open>Query and update documents\<close>

text \<open>
  The handlers build their MongoDB query documents from a few shapes only. A dataset
  query is an object with any of the fields \<^verbatim>\<open>uploader\<close>, \<^verbatim>\<open>_id\<close> and
  \<^verbatim>\<open>published\<close>; an absent field is \<open>None\<close>.
\<close>

record dataset_query =
  q_uploader :: "string option"
  q_id :: "oid option"
  q_published :: "bool option"

datatype chunk_query =
    ChunkDatasetId oid             \<comment> \<open>\<^verbatim>\<open>{ datasetId: id }\<close>\<close>
  | ChunkIdIn "oid list"           \<comment> \<open>\<^verbatim>\<open>{ _id: { $in: ids } }\<close>\<close>
  | ChunkEstuaryId jsnumber        \<comment> \<open>\<^verbatim>\<open>{ "storageIds.estuaryId": n }\<close>\<close>

datatype file_query =
    FileIdIn "oid list"            \<comment> \<open>\<^verbatim>\<open>{ _id: { $in: ids } }\<close>\<close>
  | FileChunkIdIn "oid list"       \<comment> \<open>\<^verbatim>\<open>{ chunkId: { $in: ids } }\<close>\<close>

text \<open>The \<^verbatim>\<open>$set\<close> document of \<^verbatim>\<open>publishDataset\<close>.\<close>

record dataset_update =
  set_published :: bool
  set_title :: string
  set_description :: string
  set_authors :: "oid list"
  set_keywords :: "string list option"

definition match_field :: "'a option \<Rightarrow> 'a \<Rightarrow> bool" where
  "match_field want have = (case want of None \<Rightarrow> True | Some v \<Rightarrow> have = v)"

definition ds_matches :: "dataset_query \<Rightarrow> dataset \<Rightarrow> bool" where
  "ds_matches q d =
     (match_field (q_uploader q) (uploader d) \<and>
      match_field (q_id q) (ds_id d) \<and>
      match_field (q_published q) (published d))"

fun chunk_matches :: "chunk_query \<Rightarrow> chunk \<Rightarrow> bool" where
  "chunk_matches (ChunkDatasetId i) c = (datasetId c = i)"
| "chunk_matches (ChunkIdIn ids) c = (c_id c \<in> set ids)"
| "chunk_matches (ChunkEstuaryId n) c = (estuaryId (storageIds c) = n)"

fun file_matches :: "file_query \<Rightarrow> commons_file \<Rightarrow> bool" where
  "file_matches (FileIdIn ids) f = (f_id f \<in> set ids)"
| "file_matches (FileChunkIdIn ids) f = (chunkId f \<in> set ids)"

definition apply_update :: "dataset_update \<Rightarrow> dataset \<Rightarrow> dataset" where
  "apply_update u d =
     d\<lparr>published := set_published u, title := set_title u,
       description := set_description u, authors := set_authors u,
       ds_keywords := set_keywords u\<rparr>"

fun update_first :: "('a \<Rightarrow> bool) \<Rightarrow> ('a \<Rightarrow> 'a) \<Rightarrow> 'a list \<Rightarrow> 'a list" where
  "update_first P f [] = []"
| "update_first P f (x # xs) = (if P x then f x # xs else x # update_first P f xs)"

section \<open>The collaborators\<close>

subsection \<open>The world the handlers run in\<close>

text \<open>
  Every call of a handler to \<^verbatim>\<open>dbWrapper\<close>, \<^verbatim>\<open>estuaryWrapper\<close> or
  \<^verbatim>\<open>utils\<close> is appended to \<open>calls\<close>, in the order the handler issues them.
\<close>

datatype call =
    AssertSignerIsAddress string string string
  | GetDatasets dataset_query
  | GetChunks chunk_query
  | GetCommonsFiles file_query
  | InsertAuthor author
  | UpdateDataset dataset_query dataset_update
  | DeleteCommonsFiles file_query
  | DeleteChunks chunk_query
  | DeleteDataset dataset_query
  | EstuaryDeleteFile jsnumber nat

text \<open>
  What a call to the store or to the blob store does is not decided by the handler:
  it may work (\<open>Ok\<close>), report failure through its return value (\<open>Fail\<close>: the value
  \<^verbatim>\<open>false\<close>, or \<^verbatim>\<open>undefined\<close> for a query), or reject (\<open>Throw\<close>). The schedule
  \<open>faults\<close> fixes the outcome of the \<open>k\<close>-th such call, and \<open>tick\<close> counts them.
\<close>

datatype outcome = Ok | Fail | Throw

record world =
  datasets :: "dataset list"
  chunks :: "chunk list"
  commonsFiles :: "commons_file list"
  authorsColl :: "author list"
  blobs :: "jsnumber list"
  objectIdCounter :: nat
  faults :: "nat \<Rightarrow> outcome"
  tick :: nat
  calls :: "call list"

text \<open>An awaited call either returns a value or rejects (the \<^verbatim>\<open>await\<close> then throws).\<close>

datatype 'a res = Returned 'a | Thrown

definition bind :: "'a res \<times> world \<Rightarrow> ('a \<Rightarrow> world \<Rightarrow> 'b res \<times> world) \<Rightarrow> 'b res \<times> world" where
  "bind m f = (case m of (Thrown, w) \<Rightarrow> (Thrown, w) | (Returned a, w) \<Rightarrow> f a w)"

definition invoke :: "call \<Rightarrow> world \<Rightarrow> outcome \<times> world" where
  "invoke c w = (faults w (tick w), w\<lparr>tick := Suc (tick w), calls := calls w @ [c]\<rparr>)"

subsection \<open>The metadata store\<close>

text \<open>
  Modelled from the spec: \<^verbatim>\<open>utils/dbWrapper\<close> is not among the sources. The spec
  (4.2) gives it the operations below, each returning a result collection or a boolean or
  failing with a store error; filters are exact matches on fields and set membership on
  id lists. A query answers with the matching records in store order; an insert adds the
  record; an update changes the first matching record and answers whether one matched;
  a delete removes the matching records.
\<close>

definition getDatasets :: "dataset_query \<Rightarrow> world \<Rightarrow> dataset list option res \<times> world" where
  "getDatasets q w =
     (case invoke (GetDatasets q) w of
        (Ok, w') \<Rightarrow> (Returned (Some (filter (ds_matches q) (datasets w'))), w')
      | (Fail, w') \<Rightarrow> (Returned None, w')
      | (Throw, w') \<Rightarrow> (Thrown, w'))"

definition getChunks :: "chunk_query \<Rightarrow> world \<Rightarrow> chunk list option res \<times> world" where
  "getChunks q w =
     (case invoke (GetChunks q) w of
        (Ok, w') \<Rightarrow> (Returned (Some (filter (chunk_matches q) (chunks w'))), w')
      | (Fail, w') \<Rightarrow> (Returned None, w')
      | (Throw, w') \<Rightarrow> (Thrown, w'))"

definition getCommonsFiles :: "file_query \<Rightarrow> world \<Rightarrow> commons_file list option res \<times> world" where
  "getCommonsFiles q w =
     (case invoke (GetCommonsFiles q) w of
        (Ok, w') \<Rightarrow> (Returned (Some (filter (file_matches q) (commonsFiles w'))), w')
      | (Fail, w') \<Rightarrow> (Returned None, w')
      | (Throw, w') \<Rightarrow> (Thrown, w'))"

definition insertAuthor :: "author \<Rightarrow> world \<Rightarrow> bool res \<times> world" where
  "insertAuthor a w =
     (case invoke (InsertAuthor a) w of
        (Ok, w') \<Rightarrow> (Returned True, w'\<lparr>authorsColl := authorsColl w' @ [a]\<rparr>)
      | (Fail, w') \<Rightarrow> (Returned False, w')
      | (Throw, w') \<Rightarrow> (Thrown, w'))"

definition updateDataset :: "dataset_query \<Rightarrow> dataset_update \<Rightarrow> world \<Rightarrow> bool res \<times> world" where
  "updateDataset q u w =
     (case invoke (UpdateDataset q u) w of
        (Ok, w') \<Rightarrow>
          (Returned (\<exists>d \<in> set (datasets w'). ds_matches q d),
           w'\<lparr>datasets := update_first (ds_matches q) (apply_update u) (datasets w')\<rparr>)
      | (Fail, w') \<Rightarrow> (Returned False, w')
      | (Throw, w') \<Rightarrow> (Thrown, w'))"

definition deleteCommonsFiles :: "file_query \<Rightarrow> world \<Rightarrow> bool res \<times> world" where
  "deleteCommonsFiles q w =
     (case invoke (DeleteCommonsFiles q) w of
        (Ok, w') \<Rightarrow>
          (Returned True,
           w'\<lparr>commonsFiles := filter (\<lambda>f. \<not> file_matches q f) (commonsFiles w')\<rparr>)
      | (Fail, w') \<Rightarrow> (Returned False, w')
      | (Throw, w') \<Rightarrow> (Thrown, w'))"

definition deleteChunks :: "chunk_query \<Rightarrow> world \<Rightarrow> bool res \<times> world" where
  "deleteChunks q w =
     (case invoke (DeleteChunks q) w of
        (Ok, w') \<Rightarrow>
          (Returned True, w'\<lparr>chunks := filter (\<lambda>c. \<not> chunk_matches q c) (chunks w')\<rparr>)
      | (Fail, w') \<Rightarrow> (Returned False, w')
      | (Throw, w') \<Rightarrow> (Thrown, w'))"

definition deleteDataset :: "dataset_query \<Rightarrow> world \<Rightarrow> bool res \<times> world" where
  "deleteDataset q w =
     (case invoke (DeleteDataset q) w of
        (Ok, w') \<Rightarrow>
          (Returned True, w'\<lparr>datasets := filter (\<lambda>d. \<not> ds_matches q d) (datasets w')\<rparr>)
      | (Fail, w') \<Rightarrow> (Returned False, w')
      | (Throw, w') \<Rightarrow> (Thrown, w'))"

subsection \<open>The blob store\<close>

text \<open>
  Modelled from the spec: \<^verbatim>\<open>utils/estuaryWrapper\<close> is not among the sources. The
  spec (6) gives the blob store one operation, \<^verbatim>\<open>delete(groupId, retries) -> bool\<close>.
\<close>

definition estuary_deleteFile :: "jsnumber \<Rightarrow> nat \<Rightarrow> world \<Rightarrow> bool res \<times> world" where
  "estuary_deleteFile n retries w =
     (case invoke (EstuaryDeleteFile n retries) w of
        (Ok, w') \<Rightarrow> (Returned True, w'\<lparr>blobs := filter (\<lambda>b. b \<noteq> n) (blobs w')\<rparr>)
      | (Fail, w') \<Rightarrow> (Returned False, w')
      | (Throw, w') \<Rightarrow> (Thrown, w'))"

subsection \<open>Library functions\<close>

text \<open>
  The handlers use these functions of JavaScript and of its libraries; they are
  parameters of the model. \<open>assertSignerIsAddress\<close> is \<^verbatim>\<open>utils.assertSignerIsAddress\<close>
  (message, signature, address); \<open>objectIdFromString\<close> is
  \<^verbatim>\<open>new mongodb.ObjectId(s)\<close>, which throws (\<open>None\<close>) on a string that is no id.
\<close>

record env =
  assertSignerIsAddress :: "string \<Rightarrow> string \<Rightarrow> string \<Rightarrow> bool"
  sanitizeHtml :: "string \<Rightarrow> string"
  parseInt :: "string \<Rightarrow> jsnumber"
  numberToString :: "jsnumber \<Rightarrow> string"
  objectIdFromString :: "string \<Rightarrow> oid option"

text \<open>The signature check is pure; the call is recorded all the same.\<close>

definition checkSigner :: "env \<Rightarrow> string \<Rightarrow> string \<Rightarrow> string \<Rightarrow> world \<Rightarrow> bool \<times> world" where
  "checkSigner e msg sig addr w =
     (assertSignerIsAddress e msg sig addr,
      w\<lparr>calls := calls w @ [AssertSignerIsAddress msg sig addr]\<rparr>)"

text \<open>\<^verbatim>\<open>new mongodb.ObjectId()\<close>: the next id of the generator.\<close>

definition newObjectId :: "world \<Rightarrow> oid \<times> world" where
  "newObjectId w = (objectIdCounter w, w\<lparr>objectIdCounter := Suc (objectIdCounter w)\<rparr>)"

text \<open>\<^verbatim>\<open>String.prototype.toLowerCase\<close>, on the ASCII letters.\<close>

definition lower_char :: "char \<Rightarrow> char" where
  "lower_char c =
     (if 65 \<le> (of_char c :: nat) \<and> (of_char c :: nat) \<le> 90
      then char_of (of_char c + 32 :: nat) else c)"

definition toLowerCase :: "string \<Rightarrow> string" where
  "toLowerCase s = map lower_char s"

text \<open>\<^verbatim>\<open>s.split(",")\<close>: the pieces between the separators; one piece for the empty string.\<close>

fun split :: "char \<Rightarrow> string \<Rightarrow> string list" where
  "split sep [] = [[]]"
| "split sep (x # xs) =
     (if x = sep then [] # split sep xs
      else (case split sep xs of [] \<Rightarrow> [[x]] | p # ps \<Rightarrow> (x # p) # ps))"

section \<open>Requests and responses\<close>

text \<open>
  \<^verbatim>\<open>req.query\<close> and \<^verbatim>\<open>req.body\<close> map parameter names to strings; a name that
  is not sent is \<^verbatim>\<open>undefined\<close>. \<^verbatim>\<open>!x\<close> holds of \<^verbatim>\<open>undefined\<close> and of the
  empty string.
\<close>

record request =
  query :: "string \<rightharpoonup> string"
  body :: "string \<rightharpoonup> string"

definition falsy :: "string option \<Rightarrow> bool" where
  "falsy x = (case x of None \<Rightarrow> True | Some s \<Rightarrow> s = [])"

definition str :: "string option \<Rightarrow> string" where
  "str x = (case x of None \<Rightarrow> [] | Some s \<Rightarrow> s)"

record file_with_estuaryId =
  fe_file :: commons_file
  fe_estuaryId :: "jsnumber option"

datatype json =
    Error string                                  \<comment> \<open>\<^verbatim>\<open>{ error: message }\<close>\<close>
  | Message string                                \<comment> \<open>\<^verbatim>\<open>{ message: message }\<close>\<close>
  | Data string                                   \<comment> \<open>\<^verbatim>\<open>{ data: message }\<close>\<close>
  | DatasetList "dataset list option"
  | DatasetObject dataset
  | ChunkList "chunk list option"
  | FileList "file_with_estuaryId list"

record response =
  status :: nat
  payload :: json

definition respond :: "nat \<Rightarrow> json \<Rightarrow> response" where
  "respond s j = \<lparr>status = s, payload = j\<rparr>"

section \<open>The handlers\<close>

subsection \<open>\<^verbatim>\<open>deleteFileMetadata\<close>\<close>

definition deleteFileMetadata :: "env \<Rightarrow> request \<Rightarrow> world \<Rightarrow> response res \<times> world" where
  "deleteFileMetadata e req w =
    (if falsy (query req ''address'') \<or> falsy (query req ''estuaryId'') \<or>
        falsy (query req ''signature'')
     then (Returned (respond 400 (Error ''Missing parameter(s)'')), w)
     else if length (str (query req ''address'')) \<noteq> 42 \<or>
             take 2 (str (query req ''address'')) \<noteq> ''0x''
     then (Returned (respond 400
             (Error ''Address must start with 0x and be less than 42 characters long'')), w)
     else
       let address = toLowerCase (str (query req ''address''));
           estuaryId = parseInt e (str (query req ''estuaryId''));
           signature = str (query req ''signature'');
           msg = ''/metadata/files?address='' @ str (query req ''address'') @
                 ''&estuaryId='' @ numberToString e estuaryId;
           (authSuccess, w0) = checkSigner e msg signature address w
       in
       if \<not> authSuccess
       then (Returned (respond 400
               (Error ''Failed to delete file metadata. Signer != address'')), w0)
       else
         bind (getChunks (ChunkEstuaryId estuaryId) w0) (\<lambda>chunks w1.
           case chunks of
             None \<Rightarrow> (Returned (respond 404
               (Error ''Failed to delete file metadata. No corresponding chunks found.'')), w1)
           | Some [] \<Rightarrow> (Returned (respond 404
               (Error ''Failed to delete file metadata. No corresponding chunks found.'')), w1)
           | Some (chunk0 # _) \<Rightarrow>
               let datasetId = datasetId chunk0 in
               bind (getDatasets \<lparr>q_uploader = None, q_id = Some datasetId,
                                  q_published = None\<rparr> w1) (\<lambda>datasets w2.
                 case datasets of
                   None \<Rightarrow> (Returned (respond 404
                     (Error ''Failed to delete file metadata. No corresponding datasets found.'')), w2)
                 | Some [] \<Rightarrow> (Returned (respond 404
                     (Error ''Failed to delete file metadata. No corresponding datasets found.'')), w2)
                 | Some (dataset # _) \<Rightarrow>
                     if published dataset
                     then (Returned (respond 400 (Error ''Cannot delete published dataset'')), w2)
                     else
                       let datasetChildChunkIds = chunkIds dataset in
                       bind (deleteCommonsFiles (FileChunkIdIn datasetChildChunkIds) w2)
                         (\<lambda>successfulDelete w3.
                       bind (deleteChunks (ChunkIdIn datasetChildChunkIds) w3)
                         (\<lambda>successfulDelete w4.
                       bind (deleteDataset \<lparr>q_uploader = None, q_id = Some datasetId,
                                            q_published = None\<rparr> w4)
                         (\<lambda>successfulDelete w5.
                       bind (estuary_deleteFile estuaryId 5 w5)
                         (\<lambda>successfulDelete w6.
                       if successfulDelete
                       then (Returned (respond 200
                               (Data (''Successfully deleted file metadata for file with estuaryId: ''
                                      @ numberToString e estuaryId))), w6)
                       else (Returned (respond 400
                               (Error ''An unknown error occurred. Failed to delete dataset.'')),
                             w6))))))))"

subsection \<open>\<^verbatim>\<open>publishDataset\<close>\<close>

text \<open>
  \<^verbatim>\<open>sanitizeHtml\<close> answers the empty string for \<^verbatim>\<open>undefined\<close>; \<^verbatim>\<open>x?.f()\<close>
  is \<^verbatim>\<open>undefined\<close> when \<^verbatim>\<open>x\<close> is.
\<close>

definition sanitizeOpt :: "env \<Rightarrow> string option \<Rightarrow> string" where
  "sanitizeOpt e x = (case x of None \<Rightarrow> [] | Some s \<Rightarrow> sanitizeHtml e s)"

definition splitSanitized :: "env \<Rightarrow> string option \<Rightarrow> string list option" where
  "splitSanitized e x = map_option (\<lambda>s. map (sanitizeHtml e) (split CHR '','' s)) x"

text \<open>The \<^verbatim>\<open>map\<close> over \<^verbatim>\<open>authorsStrArr\<close>: one new id for each name, in order.\<close>

fun makeAuthors :: "string list \<Rightarrow> world \<Rightarrow> author list \<times> world" where
  "makeAuthors [] w = ([], w)"
| "makeAuthors (authorStr # rest) w =
     (let (authorId, w1) = newObjectId w;
          (more, w2) = makeAuthors rest w1
      in (\<lparr>a_id = authorId, a_name = authorStr\<rparr> # more, w2))"

text \<open>
  The loop over \<^verbatim>\<open>authors\<close>: \<open>Some r\<close> is the early \<^verbatim>\<open>return\<close> of the response
  \<open>r\<close>, \<open>None\<close> the end of the loop.
\<close>

fun insertAuthors :: "author list \<Rightarrow> world \<Rightarrow> response option res \<times> world" where
  "insertAuthors [] w = (Returned None, w)"
| "insertAuthors (a # rest) w =
     bind (insertAuthor a w) (\<lambda>inserted w1.
       if \<not> inserted
       then (Returned (Some (respond 400 (Error ''Failed to insert author into database''))), w1)
       else insertAuthors rest w1)"

text \<open>The loop \<^verbatim>\<open>for (let i = 0; i < 3; i++)\<close> around \<^verbatim>\<open>updateDataset\<close>.\<close>

function updateLoop ::
  "nat \<Rightarrow> string \<Rightarrow> string \<Rightarrow> dataset_query \<Rightarrow> dataset_update \<Rightarrow> world \<Rightarrow>
   response option res \<times> world" where
  "updateLoop i idStr addr q u w =
     (if i < 3
      then bind (updateDataset q u w) (\<lambda>success w1.
             if success
             then (Returned (Some (respond 200
                     (Message (''Successfully published dataset '' @ idStr @ '' for '' @
                               addr)))), w1)
             else updateLoop (Suc i) idStr addr q u w1)
      else (Returned None, w))"
  by pat_completeness auto
termination
  by (relation "measure (\<lambda>(i, idStr, addr, q, u, w). 3 - i)") auto

declare updateLoop.simps [simp del]

definition publishDataset :: "env \<Rightarrow> request \<Rightarrow> world \<Rightarrow> response res \<times> world" where
  "publishDataset e req w =
    (let address = sanitizeOpt e (map_option toLowerCase (body req ''address''));
         signature = sanitizeOpt e (body req ''signature'');
         datasetId = sanitizeOpt e (body req ''datasetId'');
         title = sanitizeOpt e (body req ''title'');
         description = sanitizeOpt e (body req ''description'');
         authorsStrArr = splitSanitized e (body req ''authors'');
         keywords = splitSanitized e (body req ''keywords'')
     in
     if address = [] \<or> signature = [] \<or> datasetId = [] \<or> title = [] \<or>
        description = [] \<or> authorsStrArr = None
     then (Returned (respond 400 (Error ''Failed to publish dataset. Missing parameters.'')), w)
     else
       let msg = str (body req ''address'') @ datasetId;
           (authSuccess, w0) = checkSigner e msg signature address w
       in
       if \<not> authSuccess
       then (Returned (respond 400 (Error ''Failed to publish dataset. Signer != address'')), w0)
       else
         let (authors, w1) = makeAuthors (the authorsStrArr) w0;
             authorIds = map a_id authors
         in
         bind (insertAuthors authors w1) (\<lambda>early w2.
           case early of
             Some r \<Rightarrow> (Returned r, w2)
           | None \<Rightarrow>
               let attempt =
                     (case objectIdFromString e datasetId of
                        None \<Rightarrow> (Thrown, w2)
                      | Some oid \<Rightarrow>
                          updateLoop 0 datasetId address
                            \<lparr>q_uploader = Some address, q_id = Some oid, q_published = None\<rparr>
                            \<lparr>set_published = True, set_title = title,
                             set_description = description, set_authors = authorIds,
                             set_keywords = keywords\<rparr> w2)
               in
               (case attempt of
                  (Returned (Some r), w3) \<Rightarrow> (Returned r, w3)
                | (_, w3) \<Rightarrow> (Returned (respond 400 (Error ''Failed to publish dataset.'')), w3))))"

subsection \<open>The read handlers\<close>

text \<open>
  A read handler wraps its work in \<^verbatim>\<open>try\<close>: the work either returns a response
  (\<open>Returned (Some r)\<close>), falls out of the block (\<open>Returned None\<close>) or throws, and in
  the last two cases the handler answers with the response after the block. Reading a
  property of \<^verbatim>\<open>undefined\<close> and iterating over it throw a TypeError.
\<close>

definition getAllPublishedDatasets :: "env \<Rightarrow> request \<Rightarrow> world \<Rightarrow> response \<times> world" where
  "getAllPublishedDatasets e req w =
     (case getDatasets \<lparr>q_uploader = None, q_id = None, q_published = Some True\<rparr> w of
        (Returned found, w1) \<Rightarrow> (respond 200 (DatasetList found), w1)
      | (Thrown, w1) \<Rightarrow> (respond 404 (Error ''There are no published datasets''), w1))"

definition getPublishedDatasetById :: "env \<Rightarrow> request \<Rightarrow> world \<Rightarrow> response \<times> world" where
  "getPublishedDatasetById e req w =
     (if falsy (query req ''id'')
      then (respond 404 (Error ''Please specify the dataset ID via the id query parameter''), w)
      else
        let attempt =
              (case objectIdFromString e (str (query req ''id'')) of
                 None \<Rightarrow> (Thrown, w)
               | Some oid \<Rightarrow>
                   bind (getDatasets \<lparr>q_uploader = None, q_id = Some oid,
                                      q_published = Some True\<rparr> w) (\<lambda>datasets w1.
                     case datasets of
                       Some (dataset # _) \<Rightarrow> (Returned (Some (respond 200 (DatasetObject dataset))), w1)
                     | _ \<Rightarrow> (Returned None, w1)))
        in
        (case attempt of
           (Returned (Some r), w2) \<Rightarrow> (r, w2)
         | (_, w2) \<Rightarrow>
             (respond 404 (Error ''There is no published dataset with the specified id''), w2)))"

definition getPublishedDatasets :: "env \<Rightarrow> request \<Rightarrow> world \<Rightarrow> response \<times> world" where
  "getPublishedDatasets e req w =
     (if \<not> falsy (query req ''id'')
      then getPublishedDatasetById e req w
      else getAllPublishedDatasets e req w)"

definition getPublishedChunksByDatasetId :: "env \<Rightarrow> request \<Rightarrow> world \<Rightarrow> response \<times> world" where
  "getPublishedChunksByDatasetId e req w =
     (if falsy (query req ''datasetId'')
      then (respond 400 (Error
              ''Please specify the chunk's parent dataset with the datasetId query parameter''), w)
      else
        let attempt =
              (case objectIdFromString e (str (query req ''datasetId'')) of
                 None \<Rightarrow> (Thrown, w)
               | Some oid \<Rightarrow>
                   bind (getDatasets \<lparr>q_uploader = None, q_id = Some oid,
                                      q_published = Some True\<rparr> w) (\<lambda>datasets w1.
                     case datasets of
                       None \<Rightarrow> (Thrown, w1)
                     | Some [] \<Rightarrow> (Returned None, w1)
                     | Some (_ # _) \<Rightarrow>
                         bind (getChunks (ChunkDatasetId oid) w1) (\<lambda>chunks w2.
                           (Returned (Some (respond 200 (ChunkList chunks))), w2))))
        in
        (case attempt of
           (Returned (Some r), w3) \<Rightarrow> (r, w3)
         | (_, w3) \<Rightarrow>
             (respond 404 (Error (''Found no chunks whose parent dataset is '' @
                                  str (query req ''datasetId''))), w3)))"

text \<open>
  The two nested loops of \<^verbatim>\<open>getFileMetadata\<close> over the chunks and their
  \<^verbatim>\<open>fileIds\<close>, filling \<^verbatim>\<open>fileIdToEstuaryId\<close> and \<^verbatim>\<open>fileIds\<close>.
\<close>

definition collectFileIds :: "chunk list \<Rightarrow> (oid \<rightharpoonup> jsnumber) \<times> oid list" where
  "collectFileIds cs =
     fold (\<lambda>chunk acc.
             fold (\<lambda>fileId (fileIdToEstuaryId, fileIds).
                     (fileIdToEstuaryId(fileId \<mapsto> estuaryId (storageIds chunk)),
                      fileIds @ [fileId]))
                  (fileIds chunk) acc)
          cs (Map.empty, [])"

definition getFileMetadata :: "env \<Rightarrow> request \<Rightarrow> world \<Rightarrow> response \<times> world" where
  "getFileMetadata e req w =
     (if falsy (query req ''address'')
      then (respond 400 (Error ''Please specify the uploader with the address query parameter''), w)
      else
        let address = toLowerCase (str (query req ''address''));
            attempt =
              bind (getDatasets \<lparr>q_uploader = Some address, q_id = None,
                                 q_published = None\<rparr> w) (\<lambda>datasets w1.
                case datasets of
                  None \<Rightarrow> (Thrown, w1)
                | Some ds \<Rightarrow>
                    let chunkIds = concat (map chunkIds ds) in
                    bind (getChunks (ChunkIdIn chunkIds) w1) (\<lambda>chunks w2.
                      case chunks of
                        None \<Rightarrow> (Thrown, w2)
                      | Some cs \<Rightarrow>
                          let (fileIdToEstuaryId, fileIds) = collectFileIds cs in
                          bind (getCommonsFiles (FileIdIn fileIds) w2) (\<lambda>files w3.
                            case files of
                              None \<Rightarrow> (Thrown, w3)
                            | Some fs \<Rightarrow>
                                let filesWithEstIds =
                                      map (\<lambda>file. \<lparr>fe_file = file,
                                                    fe_estuaryId = fileIdToEstuaryId (f_id file)\<rparr>) fs
                                in (Returned (Some (respond 200 (FileList filesWithEstIds))), w3))))
        in
        (case attempt of
           (Returned (Some r), w4) \<Rightarrow> (r, w4)
         | (_, w4) \<Rightarrow> (respond 400 (Error ''No files for the specified address''), w4)))"

section \<open>Vocabulary of the properties\<close>

text \<open>The outcome of the \<open>k\<close>-th call to a collaborator, counted from the state \<open>w\<close>.\<close>

definition outcome_at :: "world \<Rightarrow> nat \<Rightarrow> outcome" where
  "outcome_at w k = faults w (tick w + k)"

subsection \<open>Deleting\<close>

text \<open>
  The dataset a delete request targets: the parent dataset of the first chunk stored
  under the request's \<^verbatim>\<open>estuaryId\<close>, as \<^verbatim>\<open>deleteFileMetadata\<close> resolves it.
\<close>

definition delete_target :: "env \<Rightarrow> request \<Rightarrow> world \<Rightarrow> dataset option" where
  "delete_target e req w =
     (case filter (chunk_matches (ChunkEstuaryId (parseInt e (str (query req ''estuaryId'')))))
             (chunks w) of
        [] \<Rightarrow> None
      | chunk0 # _ \<Rightarrow>
          (case filter (ds_matches \<lparr>q_uploader = None, q_id = Some (datasetId chunk0),
                                    q_published = None\<rparr>) (datasets w) of
             [] \<Rightarrow> None
           | dataset # _ \<Rightarrow> Some dataset))"

text \<open>The request has its parameters, a well-formed address and a signature that verifies.\<close>

definition delete_request_ok :: "env \<Rightarrow> request \<Rightarrow> bool" where
  "delete_request_ok e req =
     (\<not> falsy (query req ''address'') \<and> \<not> falsy (query req ''estuaryId'') \<and>
      \<not> falsy (query req ''signature'') \<and>
      length (str (query req ''address'')) = 42 \<and>
      take 2 (str (query req ''address'')) = ''0x'' \<and>
      assertSignerIsAddress e
        (''/metadata/files?address='' @ str (query req ''address'') @ ''&estuaryId='' @
         numberToString e (parseInt e (str (query req ''estuaryId''))))
        (str (query req ''signature''))
        (toLowerCase (str (query req ''address''))))"

fun is_removal :: "call \<Rightarrow> bool" where
  "is_removal (DeleteCommonsFiles q) = True"
| "is_removal (DeleteChunks q) = True"
| "is_removal (DeleteDataset q) = True"
| "is_removal (EstuaryDeleteFile n r) = True"
| "is_removal c = False"

definition removals :: "call list \<Rightarrow> call list" where
  "removals cs = filter is_removal cs"

text \<open>The four removals of the cascading delete of dataset \<open>d\<close>, in order.\<close>

definition cascade :: "env \<Rightarrow> request \<Rightarrow> dataset \<Rightarrow> call list" where
  "cascade e req d =
     [DeleteCommonsFiles (FileChunkIdIn (chunkIds d)),
      DeleteChunks (ChunkIdIn (chunkIds d)),
      DeleteDataset \<lparr>q_uploader = None, q_id = Some (ds_id d), q_published = None\<rparr>,
      EstuaryDeleteFile (parseInt e (str (query req ''estuaryId''))) 5]"

text \<open>
  How many of them are issued: a removal that rejects ends the handler, which has no
  \<^verbatim>\<open>try\<close> around them. The removals are the calls 2 to 5 of the handler.
\<close>

definition steps_issued :: "world \<Rightarrow> nat" where
  "steps_issued w =
     (if outcome_at w 2 = Throw then 1
      else if outcome_at w 3 = Throw then 2
      else if outcome_at w 4 = Throw then 3 else 4)"

text \<open>
  The last part of \<^verbatim>\<open>deleteFileMetadata\<close>, from the first removal on, on its own:
  the proofs go through it (lemma \<open>delete_reaches_cascade\<close>).
\<close>

definition run_cascade :: "env \<Rightarrow> jsnumber \<Rightarrow> dataset \<Rightarrow> world \<Rightarrow> response res \<times> world" where
  "run_cascade e n d w2 =
     bind (deleteCommonsFiles (FileChunkIdIn (chunkIds d)) w2) (\<lambda>s3 w3.
     bind (deleteChunks (ChunkIdIn (chunkIds d)) w3) (\<lambda>s4 w4.
     bind (deleteDataset \<lparr>q_uploader = None, q_id = Some (ds_id d), q_published = None\<rparr> w4)
       (\<lambda>s5 w5.
     bind (estuary_deleteFile n 5 w5) (\<lambda>s6 w6.
       if s6
       then (Returned (respond 200
               (Data (''Successfully deleted file metadata for file with estuaryId: '' @
                      numberToString e n))), w6)
       else (Returned (respond 400
               (Error ''An unknown error occurred. Failed to delete dataset.'')), w6)))))"

subsection \<open>Publishing\<close>

text \<open>The inputs of \<^verbatim>\<open>publishDataset\<close> as the handler reads them from the body.\<close>

definition p_address :: "env \<Rightarrow> request \<Rightarrow> string" where
  "p_address e req = sanitizeOpt e (map_option toLowerCase (body req ''address''))"

definition p_signature :: "env \<Rightarrow> request \<Rightarrow> string" where
  "p_signature e req = sanitizeOpt e (body req ''signature'')"

definition p_datasetId :: "env \<Rightarrow> request \<Rightarrow> string" where
  "p_datasetId e req = sanitizeOpt e (body req ''datasetId'')"

definition p_names :: "env \<Rightarrow> request \<Rightarrow> string list" where
  "p_names e req = (case splitSanitized e (body req ''authors'') of None \<Rightarrow> [] | Some xs \<Rightarrow> xs)"

definition p_query :: "env \<Rightarrow> request \<Rightarrow> oid \<Rightarrow> dataset_query" where
  "p_query e req i = \<lparr>q_uploader = Some (p_address e req), q_id = Some i, q_published = None\<rparr>"

definition p_update :: "env \<Rightarrow> request \<Rightarrow> oid list \<Rightarrow> dataset_update" where
  "p_update e req ids =
     \<lparr>set_published = True, set_title = sanitizeOpt e (body req ''title''),
      set_description = sanitizeOpt e (body req ''description''), set_authors = ids,
      set_keywords = splitSanitized e (body req ''keywords'')\<rparr>"

text \<open>The parameters that \<^verbatim>\<open>publishDataset\<close> checks are there.\<close>

definition params_present :: "env \<Rightarrow> request \<Rightarrow> bool" where
  "params_present e req =
     (p_address e req \<noteq> [] \<and> p_signature e req \<noteq> [] \<and> p_datasetId e req \<noteq> [] \<and>
      sanitizeOpt e (body req ''title'') \<noteq> [] \<and>
      sanitizeOpt e (body req ''description'') \<noteq> [] \<and>
      body req ''authors'' \<noteq> None)"

definition signer_ok :: "env \<Rightarrow> request \<Rightarrow> bool" where
  "signer_ok e req =
     assertSignerIsAddress e (str (body req ''address'') @ p_datasetId e req)
       (p_signature e req) (p_address e req)"

definition publish_request_ok :: "env \<Rightarrow> request \<Rightarrow> bool" where
  "publish_request_ok e req = (params_present e req \<and> signer_ok e req)"

text \<open>
  The author records that \<^verbatim>\<open>publishDataset\<close> builds for the names: the ids are the
  next ones of the generator, in the order of the names.
\<close>

definition new_authors :: "world \<Rightarrow> string list \<Rightarrow> author list" where
  "new_authors w names =
     map2 (\<lambda>i nm. \<lparr>a_id = i, a_name = nm\<rparr>)
       [objectIdCounter w ..< objectIdCounter w + length names] names"

fun is_update :: "call \<Rightarrow> bool" where
  "is_update (UpdateDataset q u) = True"
| "is_update c = False"

definition update_calls :: "call list \<Rightarrow> nat" where
  "update_calls cs = length (filter is_update cs)"

text \<open>
  What the \<open>k\<close>-th call from \<open>w\<close> on answers when it is \<^verbatim>\<open>updateDataset\<close> with the
  filter \<open>q\<close>: true when the store works and a record matches, false when the store
  reports failure or no record matches.
\<close>

definition update_succeeds :: "dataset_query \<Rightarrow> world \<Rightarrow> nat \<Rightarrow> bool" where
  "update_succeeds q w k = (outcome_at w k = Ok \<and> (\<exists>d \<in> set (datasets w). ds_matches q d))"

definition update_fails :: "dataset_query \<Rightarrow> world \<Rightarrow> nat \<Rightarrow> bool" where
  "update_fails q w k =
     (outcome_at w k = Fail \<or> (outcome_at w k = Ok \<and> \<not> (\<exists>d \<in> set (datasets w). ds_matches q d)))"

text \<open>
  The parts of \<^verbatim>\<open>publishDataset\<close> on their own, for the proofs (lemma
  \<open>publishDataset_unfold\<close>): the world after the signature check and after the ids are
  drawn, and the \<^verbatim>\<open>try\<close> block with the response after it.
\<close>

definition sig_checked :: "env \<Rightarrow> request \<Rightarrow> world \<Rightarrow> world" where
  "sig_checked e req w =
     w\<lparr>calls := calls w @
         [AssertSignerIsAddress (str (body req ''address'') @ p_datasetId e req)
            (p_signature e req) (p_address e req)]\<rparr>"

definition ids_drawn :: "env \<Rightarrow> request \<Rightarrow> world \<Rightarrow> world" where
  "ids_drawn e req w =
     (sig_checked e req w)\<lparr>objectIdCounter := objectIdCounter w + length (p_names e req)\<rparr>"

definition publish_tail :: "env \<Rightarrow> request \<Rightarrow> oid list \<Rightarrow> world \<Rightarrow> response res \<times> world" where
  "publish_tail e req ids w2 =
     (case (case objectIdFromString e (p_datasetId e req) of
              None \<Rightarrow> (Thrown, w2)
            | Some i \<Rightarrow>
                updateLoop 0 (p_datasetId e req) (p_address e req) (p_query e req i)
                  (p_update e req ids) w2) of
        (Returned (Some r), w3) \<Rightarrow> (Returned r, w3)
      | (_, w3) \<Rightarrow> (Returned (respond 400 (Error ''Failed to publish dataset.'')), w3))"


text \<open>The world after a call to a collaborator, and after an author is inserted.\<close>

definition called :: "call \<Rightarrow> world \<Rightarrow> world" where
  "called c w = w\<lparr>tick := Suc (tick w), calls := calls w @ [c]\<rparr>"

definition inserted :: "author \<Rightarrow> world \<Rightarrow> world" where
  "inserted a w = (called (InsertAuthor a) w)\<lparr>authorsColl := authorsColl w @ [a]\<rparr>"

subsection \<open>Reading\<close>

text \<open>The request's \<^verbatim>\<open>datasetId\<close> is the id of a published dataset.\<close>

definition resolves_published :: "env \<Rightarrow> request \<Rightarrow> world \<Rightarrow> bool" where
  "resolves_published e req w =
     (\<exists>d \<in> set (datasets w).
        objectIdFromString e (str (query req ''datasetId'')) = Some (ds_id d) \<and> published d)"

text \<open>
  The owner chain of a file: its chunk belongs to a dataset of the uploader. The chunk of
  a file is the chunk its \<^verbatim>\<open>chunkId\<close> names.
\<close>

definition owner_chain :: "world \<Rightarrow> string \<Rightarrow> commons_file \<Rightarrow> bool" where
  "owner_chain w addr f =
     (\<exists>c \<in> set (chunks w). \<exists>d \<in> set (datasets w).
        chunkId f = c_id c \<and> datasetId c = ds_id d \<and> uploader d = addr)"

definition chunk_of :: "world \<Rightarrow> commons_file \<Rightarrow> chunk option" where
  "chunk_of w f = find (\<lambda>c. c_id c = chunkId f) (chunks w)"

definition files_of_owner :: "world \<Rightarrow> string \<Rightarrow> file_with_estuaryId list" where
  "files_of_owner w addr =
     map (\<lambda>f. \<lparr>fe_file = f,
               fe_estuaryId = map_option (\<lambda>c. estuaryId (storageIds c)) (chunk_of w f)\<rparr>)
       (filter (owner_chain w addr) (commonsFiles w))"

text \<open>
  The relational invariant of the data model (spec, section 3), which the store does not
  enforce: chunk ids are unique, a dataset lists exactly the chunks that point back to it,
  and a chunk lists exactly the files that point back to it.
\<close>

definition store_consistent :: "world \<Rightarrow> bool" where
  "store_consistent w =
     (distinct (map c_id (chunks w)) \<and>
      (\<forall>d \<in> set (datasets w). \<forall>c \<in> set (chunks w).
         (c_id c \<in> set (chunkIds d)) = (datasetId c = ds_id d)) \<and>
      (\<forall>c \<in> set (chunks w). \<forall>f \<in> set (commonsFiles w).
         (f_id f \<in> set (fileIds c)) = (chunkId f = c_id c)))"

section \<open>Example worlds\<close>

text \<open>
  A small registry: dataset 1 of Alice with one chunk (blob 17) of two files, dataset 2 of
  Bob with one chunk (blob 18) of one file. In the example environment a signature
  verifies when it is \<^verbatim>\<open>signed:\<close> followed by the address.
\<close>

definition demo_env :: env where
  "demo_env =
     \<lparr>assertSignerIsAddress = (\<lambda>msg sig addr. sig = ''signed:'' @ addr),
      sanitizeHtml = (\<lambda>s. s),
      parseInt = (\<lambda>s. if s = ''17'' then Num 17 else if s = ''18'' then Num 18 else NaN),
      numberToString = (\<lambda>n. if n = Num 17 then ''17'' else if n = Num 18 then ''18'' else ''NaN''),
      objectIdFromString =
        (\<lambda>s. if s = ''d1'' then Some 1 else if s = ''d2'' then Some 2 else None)\<rparr>"

definition alice :: string where
  "alice = ''0xa11ce00000000000000000000000000000000001''"

definition alice_mixed :: string where
  "alice_mixed = ''0xA11CE00000000000000000000000000000000001''"

definition bob :: string where
  "bob = ''0xb0b0000000000000000000000000000000000002''"

definition ds1 :: dataset where
  "ds1 = \<lparr>ds_id = 1, uploader = alice, published = False, title = [], description = [],
          authors = [], chunkIds = [10], ds_keywords = None\<rparr>"

definition ds1_published :: dataset where
  "ds1_published = ds1\<lparr>published := True\<rparr>"

definition ds2 :: dataset where
  "ds2 = \<lparr>ds_id = 2, uploader = bob, published = False, title = [], description = [],
          authors = [], chunkIds = [20], ds_keywords = None\<rparr>"

definition ch1 :: chunk where
  "ch1 = \<lparr>c_id = 10, datasetId = 1, fileIds = [100, 101],
          storageIds = \<lparr>estuaryId = Num 17\<rparr>\<rparr>"

definition ch2 :: chunk where
  "ch2 = \<lparr>c_id = 20, datasetId = 2, fileIds = [200], storageIds = \<lparr>estuaryId = Num 18\<rparr>\<rparr>"

definition fl1 :: commons_file where
  "fl1 = \<lparr>f_id = 100, chunkId = 10, filename = ''a.csv'', path = ''/a.csv''\<rparr>"

definition fl2 :: commons_file where
  "fl2 = \<lparr>f_id = 101, chunkId = 10, filename = ''b.csv'', path = ''/b.csv''\<rparr>"

definition fl3 :: commons_file where
  "fl3 = \<lparr>f_id = 200, chunkId = 20, filename = ''c.csv'', path = ''/c.csv''\<rparr>"

definition demo_world :: "(nat \<Rightarrow> outcome) \<Rightarrow> dataset list \<Rightarrow> world" where
  "demo_world fs dss =
     \<lparr>datasets = dss, chunks = [ch1, ch2], commonsFiles = [fl1, fl2, fl3],
      authorsColl = [], blobs = [Num 17, Num 18], objectIdCounter = 1000,
      faults = fs, tick = 0, calls = []\<rparr>"

definition no_faults :: "nat \<Rightarrow> outcome" where
  "no_faults k = Ok"

definition removals_fail :: "nat \<Rightarrow> outcome" where
  "removals_fail k = (if k = 2 \<or> k = 3 \<or> k = 4 then Fail else Ok)"

definition world1 :: world where
  "world1 = demo_world no_faults [ds1, ds2]"

definition world1_published :: world where
  "world1_published = demo_world no_faults [ds1_published, ds2]"

definition world1_removals_fail :: world where
  "world1_removals_fail = demo_world removals_fail [ds1, ds2]"

definition delete_req :: request where
  "delete_req =
     \<lparr>query = [''address'' \<mapsto> alice_mixed, ''estuaryId'' \<mapsto> ''17'',
               ''signature'' \<mapsto> ''signed:'' @ alice],
      body = Map.empty\<rparr>"

definition blob_delete_fails :: "nat \<Rightarrow> outcome" where
  "blob_delete_fails k = (if k = 5 then Fail else Ok)"

definition world1_blob_delete_fails :: world where
  "world1_blob_delete_fails = demo_world blob_delete_fails [ds1, ds2]"

definition publish_req :: request where
  "publish_req =
     \<lparr>query = Map.empty,
      body = [''address'' \<mapsto> alice_mixed, ''signature'' \<mapsto> ''signed:'' @ alice,
              ''datasetId'' \<mapsto> ''d1'', ''title'' \<mapsto> ''Rainfall'',
              ''description'' \<mapsto> ''Daily rainfall'', ''authors'' \<mapsto> ''Alice,Bob'']\<rparr>"

definition publish_req_no_title :: request where
  "publish_req_no_title =
     \<lparr>query = Map.empty,
      body = [''address'' \<mapsto> alice_mixed, ''signature'' \<mapsto> ''signed:'' @ alice,
              ''datasetId'' \<mapsto> ''d1'', ''description'' \<mapsto> ''Daily rainfall'',
              ''authors'' \<mapsto> ''Alice,Bob'', ''keywords'' \<mapsto> ''rain'']\<rparr>"

definition publish_req_bob :: request where
  "publish_req_bob =
     \<lparr>query = Map.empty,
      body = [''address'' \<mapsto> bob, ''signature'' \<mapsto> ''signed:'' @ bob,
              ''datasetId'' \<mapsto> ''d1'', ''title'' \<mapsto> ''Rainfall'',
              ''description'' \<mapsto> ''Daily rainfall'', ''authors'' \<mapsto> ''Bob'',
              ''keywords'' \<mapsto> ''rain'']\<rparr>"

definition second_insert_fails :: "nat \<Rightarrow> outcome" where
  "second_insert_fails k = (if k = 1 then Fail else Ok)"

definition two_updates_fail :: "nat \<Rightarrow> outcome" where
  "two_updates_fail k = (if k = 2 \<or> k = 3 then Fail else Ok)"

definition updates_fail :: "nat \<Rightarrow> outcome" where
  "updates_fail k = (if 2 \<le> k then Fail else Ok)"

definition world1_second_insert_fails :: world where
  "world1_second_insert_fails = demo_world second_insert_fails [ds1, ds2]"

definition world1_two_updates_fail :: world where
  "world1_two_updates_fail = demo_world two_updates_fail [ds1, ds2]"

definition world1_updates_fail :: world where
  "world1_updates_fail = demo_world updates_fail [ds1, ds2]"

definition list_req :: request where
  "list_req = \<lparr>query = Map.empty, body = Map.empty\<rparr>"

definition by_id_req :: request where
  "by_id_req = \<lparr>query = [''id'' \<mapsto> ''d1''], body = Map.empty\<rparr>"

definition chunks_req :: request where
  "chunks_req = \<lparr>query = [''datasetId'' \<mapsto> ''d1''], body = Map.empty\<rparr>"

definition files_req :: request where
  "files_req = \<lparr>query = [''address'' \<mapsto> alice_mixed], body = Map.empty\<rparr>"

section \<open>Properties of the cascading delete\<close>

lemma outcome_at_simps:
  "outcome_at w 0 = faults w (tick w)"
  "outcome_at w 1 = faults w (Suc (tick w))"
  "outcome_at w 2 = faults w (Suc (Suc (tick w)))"
  "outcome_at w 3 = faults w (Suc (Suc (Suc (tick w))))"
  "outcome_at w 4 = faults w (Suc (Suc (Suc (Suc (tick w)))))"
  "outcome_at w 5 = faults w (Suc (Suc (Suc (Suc (Suc (tick w))))))"
  by (simp_all add: outcome_at_def eval_nat_numeral)

lemma ds_matches_id:
  "ds_matches \<lparr>q_uploader = None, q_id = Some i, q_published = None\<rparr> d = (ds_id d = i)"
  by (simp add: ds_matches_def match_field_def)

lemma filter_hd_sat: "filter P xs = y # ys \<Longrightarrow> P y"
  by (metis filter_eq_ConsD)

lemma delete_target_cases:
  assumes "delete_target e req w = Some d"
  obtains c cs ds where
    "filter (chunk_matches (ChunkEstuaryId (parseInt e (str (query req ''estuaryId'')))))
       (chunks w) = c # cs"
    "filter (ds_matches \<lparr>q_uploader = None, q_id = Some (datasetId c), q_published = None\<rparr>)
       (datasets w) = d # ds"
    "datasetId c = ds_id d"
proof -
  from assms obtain c cs where
    c: "filter (chunk_matches (ChunkEstuaryId (parseInt e (str (query req ''estuaryId'')))))
          (chunks w) = c # cs"
    by (auto simp: delete_target_def split: list.splits)
  with assms obtain ds where
    d: "filter (ds_matches \<lparr>q_uploader = None, q_id = Some (datasetId c), q_published = None\<rparr>)
          (datasets w) = d # ds"
    by (auto simp: delete_target_def split: list.splits)
  from filter_hd_sat [OF d] have "datasetId c = ds_id d"
    by (simp add: ds_matches_id)
  with c d show thesis by (rule that)
qed

text \<open>A request that resolves to a published dataset changes no collection and no blob.\<close>

lemma published_frame:
  assumes target: "delete_target e req w = Some d" and pub: "published d"
  shows "datasets (snd (deleteFileMetadata e req w)) = datasets w"
    and "chunks (snd (deleteFileMetadata e req w)) = chunks w"
    and "commonsFiles (snd (deleteFileMetadata e req w)) = commonsFiles w"
    and "blobs (snd (deleteFileMetadata e req w)) = blobs w"
    and "removals (calls (snd (deleteFileMetadata e req w))) = removals (calls w)"
    and "fst (deleteFileMetadata e req w) = Returned r \<Longrightarrow> status r \<noteq> 200"
proof -
  from target obtain c cs ds where
    c: "filter (chunk_matches (ChunkEstuaryId (parseInt e (str (query req ''estuaryId'')))))
          (chunks w) = c # cs"
    and d: "filter (ds_matches \<lparr>q_uploader = None, q_id = Some (datasetId c), q_published = None\<rparr>)
          (datasets w) = d # ds"
    by (rule delete_target_cases)
  note defs = deleteFileMetadata_def Let_def getChunks_def getDatasets_def invoke_def
    checkSigner_def bind_def removals_def respond_def
  show "datasets (snd (deleteFileMetadata e req w)) = datasets w"
    using c d pub by (simp add: defs split: outcome.split)
  show "chunks (snd (deleteFileMetadata e req w)) = chunks w"
    using c d pub by (simp add: defs split: outcome.split)
  show "commonsFiles (snd (deleteFileMetadata e req w)) = commonsFiles w"
    using c d pub by (simp add: defs split: outcome.split)
  show "blobs (snd (deleteFileMetadata e req w)) = blobs w"
    using c d pub by (simp add: defs split: outcome.split)
  show "removals (calls (snd (deleteFileMetadata e req w))) = removals (calls w)"
    using c d pub by (simp add: defs split: outcome.split)
  show "fst (deleteFileMetadata e req w) = Returned r \<Longrightarrow> status r \<noteq> 200"
    using c d pub by (auto simp add: defs split: outcome.splits if_splits)
qed

lemma published_response:
  assumes target: "delete_target e req w = Some d" and pub: "published d"
    and ok: "delete_request_ok e req"
    and reads: "outcome_at w 0 = Ok" "outcome_at w 1 = Ok"
  shows "fst (deleteFileMetadata e req w) =
           Returned (respond 400 (Error ''Cannot delete published dataset''))"
proof -
  from target obtain c cs ds where
    c: "filter (chunk_matches (ChunkEstuaryId (parseInt e (str (query req ''estuaryId'')))))
          (chunks w) = c # cs"
    and d: "filter (ds_matches \<lparr>q_uploader = None, q_id = Some (datasetId c), q_published = None\<rparr>)
          (datasets w) = d # ds"
    by (rule delete_target_cases)
  show ?thesis
    using c d pub ok reads
    unfolding deleteFileMetadata_def delete_request_ok_def outcome_at_simps
    by (simp add: Let_def getChunks_def getDatasets_def invoke_def checkSigner_def bind_def)
qed

text \<open>
  C1. A delete request that targets a published dataset performs no deletion: the
  datasets, chunks and files collections and the blobs are as before, no removal is
  issued, and the request does not succeed. When the request has passed the parameter
  and signature checks and the two lookups have answered, the response is
  400 \<^verbatim>\<open>Cannot delete published dataset\<close>.
\<close>

theorem delete_published_refused:
  assumes "delete_target e req w = Some d" and "published d"
  shows "datasets (snd (deleteFileMetadata e req w)) = datasets w \<and>
         chunks (snd (deleteFileMetadata e req w)) = chunks w \<and>
         commonsFiles (snd (deleteFileMetadata e req w)) = commonsFiles w \<and>
         blobs (snd (deleteFileMetadata e req w)) = blobs w \<and>
         removals (calls (snd (deleteFileMetadata e req w))) = removals (calls w) \<and>
         (\<forall>r. fst (deleteFileMetadata e req w) = Returned r \<longrightarrow> status r \<noteq> 200) \<and>
         (delete_request_ok e req \<and> outcome_at w 0 = Ok \<and> outcome_at w 1 = Ok \<longrightarrow>
            fst (deleteFileMetadata e req w) =
              Returned (respond 400 (Error ''Cannot delete published dataset'')))"
  using published_frame [OF assms] published_response [OF assms] by blast

theorem delete_published_refused_witness:
  "delete_target demo_env delete_req world1_published = Some ds1_published \<and>
   published ds1_published \<and>
   fst (deleteFileMetadata demo_env delete_req world1_published) =
     Returned (respond 400 (Error ''Cannot delete published dataset'')) \<and>
   datasets (snd (deleteFileMetadata demo_env delete_req world1_published)) =
     [ds1_published, ds2] \<and>
   chunks (snd (deleteFileMetadata demo_env delete_req world1_published)) = [ch1, ch2] \<and>
   commonsFiles (snd (deleteFileMetadata demo_env delete_req world1_published)) =
     [fl1, fl2, fl3] \<and>
   blobs (snd (deleteFileMetadata demo_env delete_req world1_published)) = [Num 17, Num 18]"
proof -
  have target: "delete_target demo_env delete_req world1_published = Some ds1_published"
    by code_simp
  have pub: "published ds1_published"
    by code_simp
  have ok: "delete_request_ok demo_env delete_req"
    by code_simp
  have reads: "outcome_at world1_published 0 = Ok" "outcome_at world1_published 1 = Ok"
    by code_simp+
  have store: "datasets world1_published = [ds1_published, ds2]"
    "chunks world1_published = [ch1, ch2]" "commonsFiles world1_published = [fl1, fl2, fl3]"
    "blobs world1_published = [Num 17, Num 18]"
    by (simp_all add: world1_published_def demo_world_def)
  from delete_published_refused [OF target pub] target pub ok reads store
  show ?thesis by simp
qed

lemma delete_reaches_cascade:
  assumes ok: "delete_request_ok e req"
    and reads: "outcome_at w 0 = Ok" "outcome_at w 1 = Ok"
    and target: "delete_target e req w = Some d" and unpub: "\<not> published d"
  shows "\<exists>w2. deleteFileMetadata e req w =
           run_cascade e (parseInt e (str (query req ''estuaryId''))) d w2 \<and>
           removals (calls w2) = removals (calls w) \<and> tick w2 = tick w + 2 \<and>
           faults w2 = faults w"
proof -
  from target obtain c cs ds where
    c: "filter (chunk_matches (ChunkEstuaryId (parseInt e (str (query req ''estuaryId'')))))
          (chunks w) = c # cs"
    and d: "filter (ds_matches \<lparr>q_uploader = None, q_id = Some (datasetId c), q_published = None\<rparr>)
          (datasets w) = d # ds"
    and id: "datasetId c = ds_id d"
    by (rule delete_target_cases)
  from d id have d':
    "filter (ds_matches \<lparr>q_uploader = None, q_id = Some (ds_id d), q_published = None\<rparr>)
       (datasets w) = d # ds"
    by simp
  show ?thesis
    apply (rule exI [of _ "w\<lparr>tick := Suc (Suc (tick w)),
       calls := calls w @
         [AssertSignerIsAddress
            (''/metadata/files?address='' @ str (query req ''address'') @ ''&estuaryId='' @
             numberToString e (parseInt e (str (query req ''estuaryId''))))
            (str (query req ''signature'')) (toLowerCase (str (query req ''address''))),
          GetChunks (ChunkEstuaryId (parseInt e (str (query req ''estuaryId'')))),
          GetDatasets \<lparr>q_uploader = None, q_id = Some (ds_id d), q_published = None\<rparr>]\<rparr>"])
    using ok reads unpub c d' id
    unfolding deleteFileMetadata_def delete_request_ok_def removals_def run_cascade_def
      outcome_at_simps
    by (simp add: Let_def getChunks_def getDatasets_def invoke_def checkSigner_def bind_def)
qed

lemma run_cascade_removals:
  "removals (calls (snd (run_cascade e n d w))) =
     removals (calls w) @
     take (if outcome_at w 0 = Throw then 1 else if outcome_at w 1 = Throw then 2
           else if outcome_at w 2 = Throw then 3 else 4)
       [DeleteCommonsFiles (FileChunkIdIn (chunkIds d)),
        DeleteChunks (ChunkIdIn (chunkIds d)),
        DeleteDataset \<lparr>q_uploader = None, q_id = Some (ds_id d), q_published = None\<rparr>,
        EstuaryDeleteFile n 5]"
  unfolding run_cascade_def outcome_at_simps removals_def
  by (simp add: deleteCommonsFiles_def deleteChunks_def deleteDataset_def
        estuary_deleteFile_def invoke_def bind_def split: outcome.split)

lemma run_cascade_response:
  assumes "outcome_at w 0 \<noteq> Throw" "outcome_at w 1 \<noteq> Throw" "outcome_at w 2 \<noteq> Throw"
  shows "fst (run_cascade e n d w) =
           (case outcome_at w 3 of
              Ok \<Rightarrow> Returned (respond 200
                      (Data (''Successfully deleted file metadata for file with estuaryId: '' @
                             numberToString e n)))
            | Fail \<Rightarrow> Returned (respond 400
                        (Error ''An unknown error occurred. Failed to delete dataset.''))
            | Throw \<Rightarrow> Thrown)"
  using assms unfolding run_cascade_def outcome_at_simps
  by (simp add: deleteCommonsFiles_def deleteChunks_def deleteDataset_def
        estuary_deleteFile_def invoke_def bind_def split: outcome.split)

lemma cascade_removals:
  assumes ok: "delete_request_ok e req"
    and reads: "outcome_at w 0 = Ok" "outcome_at w 1 = Ok"
    and target: "delete_target e req w = Some d" and unpub: "\<not> published d"
  shows "removals (calls (snd (deleteFileMetadata e req w))) =
           removals (calls w) @ take (steps_issued w) (cascade e req d)"
proof -
  from delete_reaches_cascade [OF assms] obtain w2 where
    run: "deleteFileMetadata e req w =
            run_cascade e (parseInt e (str (query req ''estuaryId''))) d w2"
    and rem: "removals (calls w2) = removals (calls w)"
    and t: "tick w2 = tick w + 2" and f: "faults w2 = faults w"
    by blast
  have shift: "outcome_at w2 0 = outcome_at w 2" "outcome_at w2 1 = outcome_at w 3"
    "outcome_at w2 2 = outcome_at w 4"
    by (simp_all add: outcome_at_def t f eval_nat_numeral)
  show ?thesis
    unfolding run run_cascade_removals rem shift steps_issued_def cascade_def ..
qed

text \<open>
  C2. A delete request that has passed the parameter, signature, not-found and published
  checks issues its removals in the order: files whose chunkId is among the dataset's
  chunkIds, those chunks by id, the dataset by id, the blob by the request's estuaryId
  (with 5 retries). A removal that rejects ends the sequence there; otherwise all four
  are issued.
\<close>

theorem delete_cascade_order:
  assumes "delete_request_ok e req"
    and "outcome_at w 0 = Ok" and "outcome_at w 1 = Ok"
    and "delete_target e req w = Some d" and "\<not> published d"
  shows "removals (calls (snd (deleteFileMetadata e req w))) =
           removals (calls w) @ take (steps_issued w) (cascade e req d) \<and>
         (outcome_at w 2 \<noteq> Throw \<and> outcome_at w 3 \<noteq> Throw \<and> outcome_at w 4 \<noteq> Throw \<longrightarrow>
            removals (calls (snd (deleteFileMetadata e req w))) =
              removals (calls w) @
              [DeleteCommonsFiles (FileChunkIdIn (chunkIds d)),
               DeleteChunks (ChunkIdIn (chunkIds d)),
               DeleteDataset \<lparr>q_uploader = None, q_id = Some (ds_id d), q_published = None\<rparr>,
               EstuaryDeleteFile (parseInt e (str (query req ''estuaryId''))) 5])"
  using cascade_removals [OF assms] by (simp add: steps_issued_def cascade_def)

theorem delete_cascade_order_witness:
  "delete_request_ok demo_env delete_req \<and>
   delete_target demo_env delete_req world1 = Some ds1 \<and> \<not> published ds1 \<and>
   removals (calls (snd (deleteFileMetadata demo_env delete_req world1))) =
     [DeleteCommonsFiles (FileChunkIdIn [10]), DeleteChunks (ChunkIdIn [10]),
      DeleteDataset \<lparr>q_uploader = None, q_id = Some 1, q_published = None\<rparr>,
      EstuaryDeleteFile (Num 17) 5]"
proof -
  have ok: "delete_request_ok demo_env delete_req"
    by code_simp
  have reads: "outcome_at world1 0 = Ok" "outcome_at world1 1 = Ok"
    by code_simp+
  have target: "delete_target demo_env delete_req world1 = Some ds1"
    by code_simp
  have unpub: "\<not> published ds1"
    by code_simp
  have steps: "outcome_at world1 2 \<noteq> Throw" "outcome_at world1 3 \<noteq> Throw"
    "outcome_at world1 4 \<noteq> Throw"
    by code_simp+
  have before: "removals (calls world1) = []"
    by code_simp
  have vals: "chunkIds ds1 = [10]" "ds_id ds1 = 1"
    "parseInt demo_env (str (query delete_req ''estuaryId'')) = Num 17"
    by code_simp+
  from delete_cascade_order [OF ok reads target unpub, THEN conjunct2] steps
  have "removals (calls (snd (deleteFileMetadata demo_env delete_req world1))) =
          removals (calls world1) @
          [DeleteCommonsFiles (FileChunkIdIn (chunkIds ds1)),
           DeleteChunks (ChunkIdIn (chunkIds ds1)),
           DeleteDataset \<lparr>q_uploader = None, q_id = Some (ds_id ds1), q_published = None\<rparr>,
           EstuaryDeleteFile (parseInt demo_env (str (query delete_req ''estuaryId''))) 5]"
    by blast
  with before vals ok target unpub show ?thesis by simp
qed

text \<open>
  C3. Past the checks, whatever the three intermediate removals report (success or
  failure), every later step is still issued, and the response is 200 exactly when the
  deletion in the blob store succeeds; when it reports failure the response is 400.
\<close>

theorem delete_best_effort:
  assumes ok: "delete_request_ok e req"
    and reads: "outcome_at w 0 = Ok" "outcome_at w 1 = Ok"
    and target: "delete_target e req w = Some d" and unpub: "\<not> published d"
    and steps: "outcome_at w 2 \<noteq> Throw" "outcome_at w 3 \<noteq> Throw" "outcome_at w 4 \<noteq> Throw"
  shows "removals (calls (snd (deleteFileMetadata e req w))) =
           removals (calls w) @ cascade e req d \<and>
         fst (deleteFileMetadata e req w) =
           (case outcome_at w 5 of
              Ok \<Rightarrow> Returned (respond 200
                      (Data (''Successfully deleted file metadata for file with estuaryId: '' @
                             numberToString e (parseInt e (str (query req ''estuaryId''))))))
            | Fail \<Rightarrow> Returned (respond 400
                        (Error ''An unknown error occurred. Failed to delete dataset.''))
            | Throw \<Rightarrow> Thrown) \<and>
         ((\<exists>r. fst (deleteFileMetadata e req w) = Returned r \<and> status r = 200) \<longleftrightarrow>
            outcome_at w 5 = Ok)"
proof -
  from delete_reaches_cascade [OF ok reads target unpub] obtain w2 where
    run: "deleteFileMetadata e req w =
            run_cascade e (parseInt e (str (query req ''estuaryId''))) d w2"
    and t: "tick w2 = tick w + 2" and f: "faults w2 = faults w"
    by blast
  have shift: "outcome_at w2 0 = outcome_at w 2" "outcome_at w2 1 = outcome_at w 3"
    "outcome_at w2 2 = outcome_at w 4" "outcome_at w2 3 = outcome_at w 5"
    by (simp_all add: outcome_at_def t f eval_nat_numeral)
  have all: "removals (calls (snd (deleteFileMetadata e req w))) =
               removals (calls w) @ cascade e req d"
    using cascade_removals [OF ok reads target unpub] steps
    by (simp add: steps_issued_def cascade_def)
  have resp: "fst (deleteFileMetadata e req w) =
           (case outcome_at w 5 of
              Ok \<Rightarrow> Returned (respond 200
                      (Data (''Successfully deleted file metadata for file with estuaryId: '' @
                             numberToString e (parseInt e (str (query req ''estuaryId''))))))
            | Fail \<Rightarrow> Returned (respond 400
                        (Error ''An unknown error occurred. Failed to delete dataset.''))
            | Throw \<Rightarrow> Thrown)"
  proof -
    have "outcome_at w2 0 \<noteq> Throw" "outcome_at w2 1 \<noteq> Throw" "outcome_at w2 2 \<noteq> Throw"
      unfolding shift by (fact steps)+
    from run_cascade_response [OF this] show ?thesis
      unfolding run shift .
  qed
  have iff: "(\<exists>r. fst (deleteFileMetadata e req w) = Returned r \<and> status r = 200) \<longleftrightarrow>
               outcome_at w 5 = Ok"
    unfolding resp by (cases "outcome_at w 5") (simp_all add: respond_def)
  from all resp iff show ?thesis by blast
qed

theorem delete_best_effort_witness:
  "outcome_at world1_removals_fail 2 = Fail \<and> outcome_at world1_removals_fail 3 = Fail \<and>
   outcome_at world1_removals_fail 4 = Fail \<and>
   removals (calls (snd (deleteFileMetadata demo_env delete_req world1_removals_fail))) =
     cascade demo_env delete_req ds1 \<and>
   fst (deleteFileMetadata demo_env delete_req world1_removals_fail) =
     Returned (respond 200
       (Data ''Successfully deleted file metadata for file with estuaryId: 17'')) \<and>
   outcome_at world1_blob_delete_fails 5 = Fail \<and>
   fst (deleteFileMetadata demo_env delete_req world1_blob_delete_fails) =
     Returned (respond 400 (Error ''An unknown error occurred. Failed to delete dataset.''))"
proof -
  have ok: "delete_request_ok demo_env delete_req"
    by code_simp
  have unpub: "\<not> published ds1"
    by code_simp
  have vals: "numberToString demo_env (parseInt demo_env (str (query delete_req ''estuaryId'')))
                = ''17''"
    by code_simp
  have reads1: "outcome_at world1_removals_fail 0 = Ok" "outcome_at world1_removals_fail 1 = Ok"
    by code_simp+
  have target1: "delete_target demo_env delete_req world1_removals_fail = Some ds1"
    by code_simp
  have steps1: "outcome_at world1_removals_fail 2 = Fail"
    "outcome_at world1_removals_fail 3 = Fail" "outcome_at world1_removals_fail 4 = Fail"
    "outcome_at world1_removals_fail 5 = Ok"
    by code_simp+
  have before1: "removals (calls world1_removals_fail) = []"
    by code_simp
  have reads2: "outcome_at world1_blob_delete_fails 0 = Ok"
    "outcome_at world1_blob_delete_fails 1 = Ok"
    by code_simp+
  have target2: "delete_target demo_env delete_req world1_blob_delete_fails = Some ds1"
    by code_simp
  have steps2: "outcome_at world1_blob_delete_fails 2 = Ok"
    "outcome_at world1_blob_delete_fails 3 = Ok" "outcome_at world1_blob_delete_fails 4 = Ok"
    "outcome_at world1_blob_delete_fails 5 = Fail"
    by code_simp+
  from delete_best_effort [OF ok reads1 target1 unpub] steps1 before1 vals
  have first: "removals (calls (snd (deleteFileMetadata demo_env delete_req world1_removals_fail))) =
       cascade demo_env delete_req ds1 \<and>
     fst (deleteFileMetadata demo_env delete_req world1_removals_fail) =
       Returned (respond 200
         (Data ''Successfully deleted file metadata for file with estuaryId: 17''))"
    by simp
  from delete_best_effort [OF ok reads2 target2 unpub] steps2
  have second: "fst (deleteFileMetadata demo_env delete_req world1_blob_delete_fails) =
       Returned (respond 400 (Error ''An unknown error occurred. Failed to delete dataset.''))"
    by simp
  from first second steps1 steps2 show ?thesis by simp
qed

section \<open>Properties of publishing\<close>

lemma makeAuthors_eq:
  "makeAuthors names w =
     (new_authors w names, w\<lparr>objectIdCounter := objectIdCounter w + length names\<rparr>)"
proof (induction names arbitrary: w)
  case Nil
  show ?case by (simp add: new_authors_def)
next
  case (Cons nm names)
  have upt: "[objectIdCounter w ..< Suc (objectIdCounter w + length names)] =
               objectIdCounter w # [Suc (objectIdCounter w) ..< Suc (objectIdCounter w + length names)]"
    by (rule upt_conv_Cons) simp
  show ?case
    by (simp add: Cons.IH newObjectId_def new_authors_def upt del: upt_Suc)
qed

lemmas p_defs = p_address_def p_signature_def p_datasetId_def p_names_def p_query_def
  p_update_def

lemma publishDataset_unfold:
  "publishDataset e req w =
     (if \<not> params_present e req
      then (Returned (respond 400 (Error ''Failed to publish dataset. Missing parameters.'')), w)
      else if \<not> signer_ok e req
      then (Returned (respond 400 (Error ''Failed to publish dataset. Signer != address'')),
            sig_checked e req w)
      else bind (insertAuthors (new_authors w (p_names e req)) (ids_drawn e req w))
             (\<lambda>early w2. case early of
                 Some r \<Rightarrow> (Returned r, w2)
               | None \<Rightarrow> publish_tail e req (map a_id (new_authors w (p_names e req))) w2))"
proof (cases "params_present e req")
  case False
  then show ?thesis
    unfolding publishDataset_def params_present_def p_defs
    by (auto simp: Let_def splitSanitized_def)
next
  case True
  then obtain s where s: "body req ''authors'' = Some s"
    by (auto simp: params_present_def)
  show ?thesis
  proof (cases "signer_ok e req")
    case False
    with True s show ?thesis
      unfolding publishDataset_def params_present_def signer_ok_def p_defs
      by (simp add: Let_def splitSanitized_def checkSigner_def sig_checked_def p_defs)
  next
    case sig: True
    have counter: "objectIdCounter (sig_checked e req w) = objectIdCounter w"
      by (simp add: sig_checked_def)
    have same: "new_authors (sig_checked e req w) (p_names e req) = new_authors w (p_names e req)"
      by (simp add: new_authors_def counter)
    have names: "splitSanitized e (body req ''authors'') = Some (p_names e req)"
      by (simp add: s p_names_def splitSanitized_def)
    from True sig show ?thesis
      unfolding publishDataset_def params_present_def signer_ok_def publish_tail_def
        ids_drawn_def p_query_def p_update_def Let_def
      unfolding p_address_def [symmetric] p_signature_def [symmetric]
        p_datasetId_def [symmetric] names
      apply (simp add: checkSigner_def makeAuthors_eq sig_checked_def [symmetric] same counter)
      apply (unfold same)
      apply (rule refl)
      done
  qed
qed


lemma called_simps [simp]:
  "datasets (called c w) = datasets w"
  "authorsColl (called c w) = authorsColl w"
  "tick (called c w) = Suc (tick w)"
  "faults (called c w) = faults w"
  "calls (called c w) = calls w @ [c]"
  "objectIdCounter (called c w) = objectIdCounter w"
  by (simp_all add: called_def)

lemma outcome_at_called [simp]: "outcome_at (called c w) k = outcome_at w (Suc k)"
  by (simp add: outcome_at_def)

lemma update_first_none: "\<not> (\<exists>x \<in> set xs. P x) \<Longrightarrow> update_first P f xs = xs"
  by (induction xs) auto

lemma updateLoop_done: "\<not> i < 3 \<Longrightarrow> updateLoop i s a q u w = (Returned None, w)"
  by (simp add: updateLoop.simps)

lemma updateLoop_step:
  assumes "i < 3"
  shows "updateLoop i s a q u w =
     (case outcome_at w 0 of
        Throw \<Rightarrow> (Thrown, called (UpdateDataset q u) w)
      | Fail \<Rightarrow> updateLoop (Suc i) s a q u (called (UpdateDataset q u) w)
      | Ok \<Rightarrow>
          if \<exists>d \<in> set (datasets w). ds_matches q d
          then (Returned (Some (respond 200
                  (Message (''Successfully published dataset '' @ s @ '' for '' @ a)))),
                (called (UpdateDataset q u) w)
                  \<lparr>datasets := update_first (ds_matches q) (apply_update u) (datasets w)\<rparr>)
          else updateLoop (Suc i) s a q u (called (UpdateDataset q u) w))"
  using assms
  by (subst updateLoop.simps)
     (auto simp: updateDataset_def invoke_def bind_def called_def outcome_at_def
        update_first_none split: outcome.splits)

lemma fails_called [simp]:
  "update_fails q (called c w) k = update_fails q w (Suc k)"
  "update_succeeds q (called c w) k = update_succeeds q w (Suc k)"
  by (simp_all add: update_fails_def update_succeeds_def)

lemma updateLoop_fail_step:
  assumes "i < 3" and "update_fails q w 0"
  shows "updateLoop i s a q u w = updateLoop (Suc i) s a q u (called (UpdateDataset q u) w)"
  using assms by (auto simp: updateLoop_step update_fails_def)

lemma update_calls_simps [simp]:
  "update_calls [] = 0"
  "update_calls (c # cs) = (if is_update c then Suc (update_calls cs) else update_calls cs)"
  "update_calls (cs @ ds) = update_calls cs + update_calls ds"
  by (simp_all add: update_calls_def)

lemma updateLoop_success:
  assumes "i + k < 3" and "\<forall>j<k. update_fails q w j" and "update_succeeds q w k"
  shows "fst (updateLoop i s a q u w) =
           Returned (Some (respond 200
             (Message (''Successfully published dataset '' @ s @ '' for '' @ a)))) \<and>
         update_calls (calls (snd (updateLoop i s a q u w))) = update_calls (calls w) + Suc k \<and>
         datasets (snd (updateLoop i s a q u w)) =
           update_first (ds_matches q) (apply_update u) (datasets w)"
  using assms
proof (induction k arbitrary: i w)
  case 0
  then show ?case
    by (simp add: updateLoop_step update_succeeds_def update_calls_def)
next
  case (Suc k)
  from Suc.prems have i: "i < 3" and f0: "update_fails q w 0"
    by auto
  have "fst (updateLoop (Suc i) s a q u (called (UpdateDataset q u) w)) =
           Returned (Some (respond 200
             (Message (''Successfully published dataset '' @ s @ '' for '' @ a)))) \<and>
         update_calls (calls (snd (updateLoop (Suc i) s a q u (called (UpdateDataset q u) w)))) =
           update_calls (calls (called (UpdateDataset q u) w)) + Suc k \<and>
         datasets (snd (updateLoop (Suc i) s a q u (called (UpdateDataset q u) w))) =
           update_first (ds_matches q) (apply_update u) (datasets (called (UpdateDataset q u) w))"
    using Suc.prems by (intro Suc.IH) auto
  then show ?case
    by (simp add: updateLoop_fail_step [OF i f0])
qed

lemma updateLoop_all_fail:
  assumes "\<forall>j<3 - i. update_fails q w j"
  shows "fst (updateLoop i s a q u w) = Returned None \<and>
         update_calls (calls (snd (updateLoop i s a q u w))) = update_calls (calls w) + (3 - i) \<and>
         datasets (snd (updateLoop i s a q u w)) = datasets w"
  using assms
proof (induction "3 - i" arbitrary: i w)
  case 0
  then show ?case by (simp add: updateLoop_done)
next
  case (Suc n)
  from Suc.hyps(2) have i: "i < 3" and n: "n = 3 - Suc i"
    by auto
  from Suc.prems i have f0: "update_fails q w 0"
    by auto
  have "\<forall>j<3 - Suc i. update_fails q (called (UpdateDataset q u) w) j"
    using Suc.prems by auto
  from Suc.hyps(1) [OF n this] show ?case
    using i by (simp add: updateLoop_fail_step [OF i f0])
qed

lemma updateLoop_bound:
  "update_calls (calls (snd (updateLoop i s a q u w))) \<le> update_calls (calls w) + (3 - i)"
proof (induction "3 - i" arbitrary: i w)
  case 0
  then show ?case by (simp add: updateLoop_done)
next
  case (Suc n)
  from Suc.hyps(2) have i: "i < 3" and n: "n = 3 - Suc i"
    by auto
  from Suc.hyps(1) [OF n, of "called (UpdateDataset q u) w"] i show ?case
    by (cases "outcome_at w 0") (auto simp: updateLoop_step [OF i])
qed

lemma updateLoop_no_match:
  assumes "\<not> (\<exists>d \<in> set (datasets w). ds_matches q d)"
  shows "fst (updateLoop i s a q u w) \<noteq> Returned (Some r) \<and>
         datasets (snd (updateLoop i s a q u w)) = datasets w"
  using assms
proof (induction "3 - i" arbitrary: i w)
  case 0
  then show ?case by (simp add: updateLoop_done)
next
  case (Suc n)
  from Suc.hyps(2) have i: "i < 3" and n: "n = 3 - Suc i"
    by auto
  from Suc.hyps(1) [OF n, of "called (UpdateDataset q u) w"] Suc.prems show ?case
    by (cases "outcome_at w 0") (auto simp: updateLoop_step [OF i])
qed

lemma updateLoop_returned:
  assumes "fst (updateLoop i s a q u w) = Returned (Some r)"
  shows "r = respond 200 (Message (''Successfully published dataset '' @ s @ '' for '' @ a)) \<and>
         (\<exists>d \<in> set (datasets w). ds_matches q d) \<and>
         datasets (snd (updateLoop i s a q u w)) =
           update_first (ds_matches q) (apply_update u) (datasets w)"
  using assms
proof (induction "3 - i" arbitrary: i w)
  case 0
  then show ?case by (simp add: updateLoop_done)
next
  case (Suc n)
  from Suc.hyps(2) have i: "i < 3" and n: "n = 3 - Suc i"
    by auto
  from Suc.hyps(1) [OF n, of "called (UpdateDataset q u) w"] Suc.prems show ?case
    by (cases "outcome_at w 0") (auto simp: updateLoop_step [OF i] split: if_splits)
qed


lemma inserted_simps [simp]:
  "datasets (inserted a w) = datasets w"
  "authorsColl (inserted a w) = authorsColl w @ [a]"
  "tick (inserted a w) = Suc (tick w)"
  "faults (inserted a w) = faults w"
  "calls (inserted a w) = calls w @ [InsertAuthor a]"
  "objectIdCounter (inserted a w) = objectIdCounter w"
  by (simp_all add: inserted_def)

lemma outcome_at_inserted [simp]: "outcome_at (inserted a w) k = outcome_at w (Suc k)"
  by (simp add: outcome_at_def)

lemma insertAuthors_step:
  "insertAuthors (a # rest) w =
     (case outcome_at w 0 of
        Throw \<Rightarrow> (Thrown, called (InsertAuthor a) w)
      | Fail \<Rightarrow> (Returned (Some (respond 400 (Error ''Failed to insert author into database''))),
                 called (InsertAuthor a) w)
      | Ok \<Rightarrow> insertAuthors rest (inserted a w))"
  by (simp add: insertAuthor_def invoke_def bind_def called_def inserted_def outcome_at_def
        split: outcome.splits)

lemma insertAuthors_frame:
  "datasets (snd (insertAuthors as w)) = datasets w \<and>
   update_calls (calls (snd (insertAuthors as w))) = update_calls (calls w) \<and>
   (\<forall>r. fst (insertAuthors as w) = Returned (Some r) \<longrightarrow> status r = 400)"
proof (induction as arbitrary: w)
  case Nil
  show ?case by simp
next
  case (Cons a as)
  from Cons.IH [of "inserted a w"] show ?case
    by (cases "outcome_at w 0") (simp_all add: insertAuthors_step respond_def del: insertAuthors.simps)
qed

lemma insertAuthors_all_ok:
  assumes "\<forall>k<length as. outcome_at w k = Ok"
  shows "fst (insertAuthors as w) = Returned None \<and>
         authorsColl (snd (insertAuthors as w)) = authorsColl w @ as \<and>
         datasets (snd (insertAuthors as w)) = datasets w \<and>
         tick (snd (insertAuthors as w)) = tick w + length as \<and>
         faults (snd (insertAuthors as w)) = faults w \<and>
         update_calls (calls (snd (insertAuthors as w))) = update_calls (calls w)"
  using assms
proof (induction as arbitrary: w)
  case Nil
  show ?case by simp
next
  case (Cons a as)
  from Cons.prems have ok0: "outcome_at w 0 = Ok"
    by auto
  from Cons.prems have "\<forall>k<length as. outcome_at (inserted a w) k = Ok"
    by auto
  from Cons.IH [OF this] show ?case
    by (simp add: insertAuthors_step ok0 del: insertAuthors.simps)
qed

lemma insertAuthors_first_fail:
  assumes "k < length as" and "\<forall>j<k. outcome_at w j = Ok" and "outcome_at w k = Fail"
  shows "fst (insertAuthors as w) =
           Returned (Some (respond 400 (Error ''Failed to insert author into database''))) \<and>
         authorsColl (snd (insertAuthors as w)) = authorsColl w @ take k as \<and>
         datasets (snd (insertAuthors as w)) = datasets w \<and>
         update_calls (calls (snd (insertAuthors as w))) = update_calls (calls w)"
  using assms
proof (induction as arbitrary: w k)
  case Nil
  then show ?case by simp
next
  case (Cons a as)
  show ?case
  proof (cases k)
    case 0
    with Cons.prems show ?thesis
      by (simp add: insertAuthors_step del: insertAuthors.simps)
  next
    case (Suc k')
    with Cons.prems have ok0: "outcome_at w 0 = Ok"
      by auto
    from Suc Cons.prems have "k' < length as" "\<forall>j<k'. outcome_at (inserted a w) j = Ok"
      "outcome_at (inserted a w) k' = Fail"
      by auto
    from Cons.IH [OF this] show ?thesis
      by (simp add: insertAuthors_step ok0 Suc del: insertAuthors.simps)
  qed
qed

lemma updateLoop_authors:
  "authorsColl (snd (updateLoop i s a q u w)) = authorsColl w"
proof (induction "3 - i" arbitrary: i w)
  case 0
  then show ?case by (simp add: updateLoop_done)
next
  case (Suc n)
  from Suc.hyps(2) have i: "i < 3" and n: "n = 3 - Suc i"
    by auto
  from Suc.hyps(1) [OF n, of "called (UpdateDataset q u) w"] show ?case
    by (cases "outcome_at w 0") (auto simp: updateLoop_step [OF i])
qed

lemma bind_Returned: "fst m = Returned a \<Longrightarrow> bind m f = f a (snd m)"
  by (cases m) (simp add: bind_def)

lemma bind_Thrown: "fst m = Thrown \<Longrightarrow> bind m f = (Thrown, snd m)"
  by (cases m) (simp add: bind_def)

lemma ids_drawn_simps [simp]:
  "datasets (ids_drawn e req w) = datasets w"
  "authorsColl (ids_drawn e req w) = authorsColl w"
  "tick (ids_drawn e req w) = tick w"
  "faults (ids_drawn e req w) = faults w"
  "update_calls (calls (ids_drawn e req w)) = update_calls (calls w)"
  "outcome_at (ids_drawn e req w) k = outcome_at w k"
  by (simp_all add: ids_drawn_def sig_checked_def outcome_at_def)

lemma sig_checked_simps [simp]:
  "datasets (sig_checked e req w) = datasets w"
  "authorsColl (sig_checked e req w) = authorsColl w"
  "update_calls (calls (sig_checked e req w)) = update_calls (calls w)"
  by (simp_all add: sig_checked_def)

text \<open>The tail, by what the loop returns.\<close>

lemma publish_tail_no_id:
  "objectIdFromString e (p_datasetId e req) = None \<Longrightarrow>
   publish_tail e req ids w2 = (Returned (respond 400 (Error ''Failed to publish dataset.'')), w2)"
  by (simp add: publish_tail_def)

lemma publish_tail_loop:
  assumes "objectIdFromString e (p_datasetId e req) = Some i"
  shows "publish_tail e req ids w2 =
     (case fst (updateLoop 0 (p_datasetId e req) (p_address e req) (p_query e req i)
                  (p_update e req ids) w2) of
        Returned (Some r) \<Rightarrow> Returned r
      | _ \<Rightarrow> Returned (respond 400 (Error ''Failed to publish dataset.'')),
      snd (updateLoop 0 (p_datasetId e req) (p_address e req) (p_query e req i)
             (p_update e req ids) w2))"
  using assms
  by (cases "updateLoop 0 (p_datasetId e req) (p_address e req) (p_query e req i)
               (p_update e req ids) w2")
     (simp add: publish_tail_def split: res.splits option.splits)


lemma ds_matches_p_query:
  "ds_matches (p_query e req i) d = (uploader d = p_address e req \<and> ds_id d = i)"
  by (simp add: ds_matches_def match_field_def p_query_def)

text \<open>What the handler does once the request is accepted and every author is inserted.\<close>

lemma publish_reaches_loop:
  assumes ok: "publish_request_ok e req"
    and inserts: "\<forall>k<length (p_names e req). outcome_at w k = Ok"
  shows "\<exists>w2. publishDataset e req w =
           publish_tail e req (map a_id (new_authors w (p_names e req))) w2 \<and>
         authorsColl w2 = authorsColl w @ new_authors w (p_names e req) \<and>
         datasets w2 = datasets w \<and> tick w2 = tick w + length (p_names e req) \<and>
         faults w2 = faults w \<and> update_calls (calls w2) = update_calls (calls w)"
proof -
  have len: "length (new_authors w (p_names e req)) = length (p_names e req)"
    by (simp add: new_authors_def)
  from inserts have "\<forall>k<length (new_authors w (p_names e req)).
      outcome_at (ids_drawn e req w) k = Ok"
    by (simp add: len)
  from insertAuthors_all_ok [OF this] ok show ?thesis
    by (intro exI [of _ "snd (insertAuthors (new_authors w (p_names e req)) (ids_drawn e req w))"])
       (simp add: publishDataset_unfold publish_request_ok_def bind_Returned len)
qed

text \<open>
  C7. \<^verbatim>\<open>publishDataset\<close> calls \<^verbatim>\<open>updateDataset\<close> at most 3 times. Once the request
  is accepted and the authors are inserted: the first attempt that answers true ends the
  loop with the response 200, after exactly that many attempts; when 3 attempts answer
  false the response is 400, after exactly 3 attempts.
\<close>

theorem publish_update_retries:
  "update_calls (calls (snd (publishDataset e req w))) \<le> update_calls (calls w) + 3 \<and>
   (publish_request_ok e req \<and> (\<forall>k<length (p_names e req). outcome_at w k = Ok) \<and>
    objectIdFromString e (p_datasetId e req) = Some i \<longrightarrow>
      (\<forall>k<3. (\<forall>j<k. update_fails (p_query e req i) w (length (p_names e req) + j)) \<and>
              update_succeeds (p_query e req i) w (length (p_names e req) + k) \<longrightarrow>
         fst (publishDataset e req w) =
           Returned (respond 200 (Message (''Successfully published dataset '' @
             p_datasetId e req @ '' for '' @ p_address e req))) \<and>
         update_calls (calls (snd (publishDataset e req w))) = update_calls (calls w) + Suc k) \<and>
      ((\<forall>j<3. update_fails (p_query e req i) w (length (p_names e req) + j)) \<longrightarrow>
         fst (publishDataset e req w) =
           Returned (respond 400 (Error ''Failed to publish dataset.'')) \<and>
         update_calls (calls (snd (publishDataset e req w))) = update_calls (calls w) + 3))"
proof (intro conjI impI allI)
  show "update_calls (calls (snd (publishDataset e req w))) \<le> update_calls (calls w) + 3"
  proof (cases "params_present e req \<and> signer_ok e req")
    case False
    then show ?thesis
      by (auto simp: publishDataset_unfold)
  next
    case True
    let ?m = "insertAuthors (new_authors w (p_names e req)) (ids_drawn e req w)"
    let ?ids = "map a_id (new_authors w (p_names e req))"
    have frame: "update_calls (calls (snd ?m)) = update_calls (calls w)"
      using insertAuthors_frame [of "new_authors w (p_names e req)" "ids_drawn e req w"]
      by simp
    show ?thesis
    proof (cases "fst ?m")
      case Thrown
      with True frame show ?thesis
        by (simp add: publishDataset_unfold bind_Thrown)
    next
      case (Returned early)
      show ?thesis
      proof (cases early)
        case (Some r)
        with True frame Returned show ?thesis
          by (simp add: publishDataset_unfold bind_Returned)
      next
        case None
        show ?thesis
        proof (cases "objectIdFromString e (p_datasetId e req)")
          case no: None
          with True frame Returned None show ?thesis
            by (simp add: publishDataset_unfold bind_Returned publish_tail_no_id)
        next
          case (Some i')
          from updateLoop_bound [of 0 "p_datasetId e req" "p_address e req" "p_query e req i'"
              "p_update e req ?ids" "snd ?m"]
          show ?thesis
            using True frame Returned None
            by (simp add: publishDataset_unfold bind_Returned publish_tail_loop [OF Some])
        qed
      qed
    qed
  qed
next
  fix k
  assume hyp: "publish_request_ok e req \<and> (\<forall>k<length (p_names e req). outcome_at w k = Ok) \<and>
    objectIdFromString e (p_datasetId e req) = Some i"
    and k: "k < 3"
    and att: "(\<forall>j<k. update_fails (p_query e req i) w (length (p_names e req) + j)) \<and>
              update_succeeds (p_query e req i) w (length (p_names e req) + k)"
  from hyp publish_reaches_loop [of e req w] obtain w2 where
    run: "publishDataset e req w =
            publish_tail e req (map a_id (new_authors w (p_names e req))) w2"
    and w2: "datasets w2 = datasets w" "tick w2 = tick w + length (p_names e req)"
      "faults w2 = faults w" "update_calls (calls w2) = update_calls (calls w)"
    by blast
  have shift: "update_fails (p_query e req i) w2 j =
                 update_fails (p_query e req i) w (length (p_names e req) + j)"
    "update_succeeds (p_query e req i) w2 j =
       update_succeeds (p_query e req i) w (length (p_names e req) + j)" for j
    by (simp_all add: update_fails_def update_succeeds_def outcome_at_def w2 add.assoc)
  from att have "\<forall>j<k. update_fails (p_query e req i) w2 j"
    "update_succeeds (p_query e req i) w2 k"
    by (simp_all add: shift)
  from updateLoop_success [of 0 k "p_query e req i" w2, OF _ this] k hyp
  show "fst (publishDataset e req w) =
           Returned (respond 200 (Message (''Successfully published dataset '' @
             p_datasetId e req @ '' for '' @ p_address e req)))"
    and "update_calls (calls (snd (publishDataset e req w))) = update_calls (calls w) + Suc k"
    by (simp_all add: run publish_tail_loop w2)
next
  assume hyp: "publish_request_ok e req \<and> (\<forall>k<length (p_names e req). outcome_at w k = Ok) \<and>
    objectIdFromString e (p_datasetId e req) = Some i"
    and att: "\<forall>j<3. update_fails (p_query e req i) w (length (p_names e req) + j)"
  from hyp publish_reaches_loop [of e req w] obtain w2 where
    run: "publishDataset e req w =
            publish_tail e req (map a_id (new_authors w (p_names e req))) w2"
    and w2: "datasets w2 = datasets w" "tick w2 = tick w + length (p_names e req)"
      "faults w2 = faults w" "update_calls (calls w2) = update_calls (calls w)"
    by blast
  have shift: "update_fails (p_query e req i) w2 j =
                 update_fails (p_query e req i) w (length (p_names e req) + j)" for j
    by (simp add: update_fails_def outcome_at_def w2 add.assoc)
  from att have "\<forall>j<3 - 0. update_fails (p_query e req i) w2 j"
    by (simp add: shift)
  from updateLoop_all_fail [OF this] hyp
  show "fst (publishDataset e req w) =
           Returned (respond 400 (Error ''Failed to publish dataset.''))"
    and "update_calls (calls (snd (publishDataset e req w))) = update_calls (calls w) + 3"
    by (simp_all add: run publish_tail_loop w2)
qed

theorem publish_update_retries_witness:
  "update_fails (p_query demo_env publish_req 1) world1_two_updates_fail 2 \<and>
   update_fails (p_query demo_env publish_req 1) world1_two_updates_fail 3 \<and>
   update_succeeds (p_query demo_env publish_req 1) world1_two_updates_fail 4 \<and>
   fst (publishDataset demo_env publish_req world1_two_updates_fail) =
     Returned (respond 200 (Message
       ''Successfully published dataset d1 for 0xa11ce00000000000000000000000000000000001'')) \<and>
   update_calls (calls (snd (publishDataset demo_env publish_req world1_two_updates_fail))) = 3 \<and>
   fst (publishDataset demo_env publish_req world1_updates_fail) =
     Returned (respond 400 (Error ''Failed to publish dataset.'')) \<and>
   update_calls (calls (snd (publishDataset demo_env publish_req world1_updates_fail))) = 3"
proof -
  have ok: "publish_request_ok demo_env publish_req"
    by code_simp
  have names: "length (p_names demo_env publish_req) = 2"
    by code_simp
  have oid: "objectIdFromString demo_env (p_datasetId demo_env publish_req) = Some 1"
    by code_simp
  have vals: "p_datasetId demo_env publish_req = ''d1''"
    "p_address demo_env publish_req = ''0xa11ce00000000000000000000000000000000001''"
    by code_simp+
  have before: "update_calls (calls world1_two_updates_fail) = 0"
    "update_calls (calls world1_updates_fail) = 0"
    by code_simp+
  have inserts1: "\<forall>k<length (p_names demo_env publish_req). outcome_at world1_two_updates_fail k = Ok"
    by (simp add: names outcome_at_def world1_two_updates_fail_def demo_world_def
          two_updates_fail_def)
  have inserts2: "\<forall>k<length (p_names demo_env publish_req). outcome_at world1_updates_fail k = Ok"
    by (simp add: names outcome_at_def world1_updates_fail_def demo_world_def updates_fail_def)
  have att1: "update_fails (p_query demo_env publish_req 1) world1_two_updates_fail 2"
    "update_fails (p_query demo_env publish_req 1) world1_two_updates_fail 3"
    "update_succeeds (p_query demo_env publish_req 1) world1_two_updates_fail 4"
    by code_simp+
  have att2: "update_fails (p_query demo_env publish_req 1) world1_updates_fail 2"
    "update_fails (p_query demo_env publish_req 1) world1_updates_fail 3"
    "update_fails (p_query demo_env publish_req 1) world1_updates_fail 4"
    by code_simp+
  have first: "(\<forall>j<2. update_fails (p_query demo_env publish_req 1) world1_two_updates_fail
                  (length (p_names demo_env publish_req) + j)) \<and>
     update_succeeds (p_query demo_env publish_req 1) world1_two_updates_fail
       (length (p_names demo_env publish_req) + 2)"
    using att1 by (auto simp: names less_Suc_eq eval_nat_numeral)
  have second: "\<forall>j<3. update_fails (p_query demo_env publish_req 1) world1_updates_fail
                  (length (p_names demo_env publish_req) + j)"
    using att2 by (auto simp: names less_Suc_eq eval_nat_numeral)
  have two: "(2::nat) < 3"
    by simp
  from publish_update_retries [of demo_env publish_req world1_two_updates_fail 1]
    ok inserts1 oid two first
  have thm1: "fst (publishDataset demo_env publish_req world1_two_updates_fail) =
       Returned (respond 200 (Message (''Successfully published dataset '' @
         p_datasetId demo_env publish_req @ '' for '' @ p_address demo_env publish_req))) \<and>
     update_calls (calls (snd (publishDataset demo_env publish_req world1_two_updates_fail))) =
       update_calls (calls world1_two_updates_fail) + Suc 2"
    by blast
  from publish_update_retries [of demo_env publish_req world1_updates_fail 1]
    ok inserts2 oid second
  have thm2: "fst (publishDataset demo_env publish_req world1_updates_fail) =
       Returned (respond 400 (Error ''Failed to publish dataset.'')) \<and>
     update_calls (calls (snd (publishDataset demo_env publish_req world1_updates_fail))) =
       update_calls (calls world1_updates_fail) + 3"
    by blast
  from thm1 thm2 att1 show ?thesis
    by (simp add: vals before)
qed


lemma update_first_some:
  "\<exists>x \<in> set xs. P x \<Longrightarrow> \<exists>x \<in> set xs. P x \<and> f x \<in> set (update_first P f xs)"
  by (induction xs) auto

text \<open>
  C4. When no dataset with the request's datasetId has the claimed (lower-cased,
  sanitised) address as its uploader, \<^verbatim>\<open>publishDataset\<close> never answers 200: every
  response is a 400 and the datasets collection is unchanged, whether or not the
  signature verifies for the claimed address.
\<close>

theorem publish_non_owner_fails:
  assumes "\<forall>d \<in> set (datasets w).
             objectIdFromString e (p_datasetId e req) = Some (ds_id d) \<longrightarrow>
             uploader d \<noteq> p_address e req"
  shows "(\<forall>r. fst (publishDataset e req w) = Returned r \<longrightarrow> status r = 400) \<and>
         datasets (snd (publishDataset e req w)) = datasets w"
proof (cases "params_present e req \<and> signer_ok e req")
  case False
  then show ?thesis
    by (auto simp: publishDataset_unfold respond_def)
next
  case True
  let ?m = "insertAuthors (new_authors w (p_names e req)) (ids_drawn e req w)"
  let ?ids = "map a_id (new_authors w (p_names e req))"
  have frame: "datasets (snd ?m) = datasets w"
    "\<And>r. fst ?m = Returned (Some r) \<Longrightarrow> status r = 400"
    using insertAuthors_frame [of "new_authors w (p_names e req)" "ids_drawn e req w"]
    by simp_all
  show ?thesis
  proof (cases "fst ?m")
    case Thrown
    with True frame show ?thesis
      by (simp add: publishDataset_unfold bind_Thrown)
  next
    case (Returned early)
    show ?thesis
    proof (cases early)
      case (Some r)
      with True frame Returned show ?thesis
        by (simp add: publishDataset_unfold bind_Returned)
    next
      case None
      show ?thesis
      proof (cases "objectIdFromString e (p_datasetId e req)")
        case no: None
        with True frame Returned None show ?thesis
          by (simp add: publishDataset_unfold bind_Returned publish_tail_no_id respond_def)
      next
        case (Some i)
        from assms Some have "\<not> (\<exists>d \<in> set (datasets (snd ?m)). ds_matches (p_query e req i) d)"
          by (auto simp: frame ds_matches_p_query)
        from updateLoop_no_match [OF this, of 0 "p_datasetId e req" "p_address e req"
            "p_update e req ?ids"]
        show ?thesis
          using True frame Returned None
          by (auto simp: publishDataset_unfold bind_Returned publish_tail_loop [OF Some]
                respond_def split: res.splits option.splits)
      qed
    qed
  qed
qed

theorem publish_non_owner_fails_witness:
  "signer_ok demo_env publish_req_bob \<and>
   objectIdFromString demo_env (p_datasetId demo_env publish_req_bob) = Some (ds_id ds1) \<and>
   uploader ds1 \<noteq> p_address demo_env publish_req_bob \<and>
   (\<exists>r. fst (publishDataset demo_env publish_req_bob world1) = Returned r \<and> status r = 400) \<and>
   datasets (snd (publishDataset demo_env publish_req_bob world1)) = [ds1, ds2]"
proof -
  have hyp: "\<forall>d \<in> set (datasets world1).
      objectIdFromString demo_env (p_datasetId demo_env publish_req_bob) = Some (ds_id d) \<longrightarrow>
      uploader d \<noteq> p_address demo_env publish_req_bob"
    by code_simp
  have facts: "signer_ok demo_env publish_req_bob"
    "objectIdFromString demo_env (p_datasetId demo_env publish_req_bob) = Some (ds_id ds1)"
    "uploader ds1 \<noteq> p_address demo_env publish_req_bob"
    by code_simp+
  have returned: "fst (publishDataset demo_env publish_req_bob world1) =
      Returned (respond 400 (Error ''Failed to publish dataset.''))"
    by code_simp
  have store: "datasets world1 = [ds1, ds2]"
    by (simp add: world1_def demo_world_def)
  from publish_non_owner_fails [OF hyp] returned store facts show ?thesis
    by simp
qed


lemma insertAuthors_early:
  "fst (insertAuthors as w) = Returned (Some r) \<Longrightarrow>
   r = respond 400 (Error ''Failed to insert author into database'')"
proof (induction as arbitrary: w)
  case Nil
  then show ?case by simp
next
  case (Cons a as)
  from Cons.prems Cons.IH [of "inserted a w"] show ?case
    by (cases "outcome_at w 0") (auto simp: insertAuthors_step simp del: insertAuthors.simps)
qed

lemma publish_tail_response:
  assumes "fst (publish_tail e req ids w2) = Returned r"
  shows "r = respond 400 (Error ''Failed to publish dataset.'') \<or>
         r = respond 200 (Message (''Successfully published dataset '' @ p_datasetId e req @
                                   '' for '' @ p_address e req))"
proof (cases "objectIdFromString e (p_datasetId e req)")
  case None
  with assms show ?thesis
    by (auto simp: publish_tail_no_id)
next
  case (Some i)
  show ?thesis
  proof (cases "fst (updateLoop 0 (p_datasetId e req) (p_address e req) (p_query e req i)
                  (p_update e req ids) w2)")
    case Thrown
    with assms Some show ?thesis
      by (auto simp: publish_tail_loop)
  next
    case (Returned early)
    show ?thesis
    proof (cases early)
      case None
      with assms Some Returned show ?thesis
        by (auto simp: publish_tail_loop)
    next
      case (Some r')
      with Returned updateLoop_returned [of 0 "p_datasetId e req" "p_address e req"
          "p_query e req i" "p_update e req ids" w2 r']
      have "r' = respond 200 (Message (''Successfully published dataset '' @ p_datasetId e req @
                                   '' for '' @ p_address e req))"
        by simp
      with assms \<open>objectIdFromString e (p_datasetId e req) = Some i\<close> Returned Some
      show ?thesis
        by (auto simp: publish_tail_loop)
    qed
  qed
qed

lemma publish_accepted_response:
  assumes "params_present e req"
  shows "fst (publishDataset e req w) \<noteq>
           Returned (respond 400 (Error ''Failed to publish dataset. Missing parameters.''))"
proof (cases "signer_ok e req")
  case False
  with assms show ?thesis
    by (simp add: publishDataset_unfold respond_def)
next
  case True
  let ?m = "insertAuthors (new_authors w (p_names e req)) (ids_drawn e req w)"
  show ?thesis
  proof (cases "fst ?m")
    case Thrown
    with assms True show ?thesis
      by (simp add: publishDataset_unfold bind_Thrown)
  next
    case (Returned early)
    show ?thesis
    proof (cases early)
      case (Some r)
      with Returned insertAuthors_early [of "new_authors w (p_names e req)" "ids_drawn e req w" r]
      have "r = respond 400 (Error ''Failed to insert author into database'')"
        by simp
      with assms True Returned Some show ?thesis
        by (simp add: publishDataset_unfold bind_Returned respond_def)
    next
      case None
      from publish_tail_response [of e req "map a_id (new_authors w (p_names e req))" "snd ?m"]
      show ?thesis
        using assms True Returned None
        by (auto simp: publishDataset_unfold bind_Returned respond_def)
    qed
  qed
qed

text \<open>
  C5, amended. A publish request without one of address, signature, datasetId, title,
  description or authors (or with one that is empty once sanitised) is answered 400
  \<^verbatim>\<open>Missing parameters\<close> with the world unchanged: no signature check, no call to
  the store. A request that has these six is not answered so, with or without keywords.
\<close>

theorem publish_missing_params:
  "(body req ''address'' = None \<or> body req ''signature'' = None \<or>
    body req ''datasetId'' = None \<or> body req ''title'' = None \<or>
    body req ''description'' = None \<or> body req ''authors'' = None \<longrightarrow>
      \<not> params_present e req) \<and>
   (\<not> params_present e req \<longrightarrow>
      publishDataset e req w =
        (Returned (respond 400 (Error ''Failed to publish dataset. Missing parameters.'')), w)) \<and>
   (params_present e req \<longrightarrow>
      fst (publishDataset e req w) \<noteq>
        Returned (respond 400 (Error ''Failed to publish dataset. Missing parameters.'')))"
  using publish_accepted_response [of e req w]
  by (auto simp: publishDataset_unfold params_present_def p_defs sanitizeOpt_def)

theorem publish_missing_params_witness:
  "body publish_req_no_title ''title'' = None \<and>
   publishDataset demo_env publish_req_no_title world1 =
     (Returned (respond 400 (Error ''Failed to publish dataset. Missing parameters.'')), world1) \<and>
   params_present demo_env publish_req \<and> body publish_req ''keywords'' = None \<and>
   fst (publishDataset demo_env publish_req world1) \<noteq>
     Returned (respond 400 (Error ''Failed to publish dataset. Missing parameters.''))"
proof -
  have missing: "body publish_req_no_title ''title'' = None"
    by code_simp
  have present: "params_present demo_env publish_req" "body publish_req ''keywords'' = None"
    by code_simp+
  from publish_missing_params [of publish_req_no_title demo_env world1]
    publish_missing_params [of publish_req demo_env world1] missing present
  show ?thesis
    by simp
qed

text \<open>
  C5 as stated fails: a request without keywords passes the validation and is published.
\<close>

theorem publish_without_keywords_counterexample:
  "body publish_req ''keywords'' = None \<and>
   fst (publishDataset demo_env publish_req world1) =
     Returned (respond 200 (Message
       ''Successfully published dataset d1 for 0xa11ce00000000000000000000000000000000001'')) \<and>
   authorsColl (snd (publishDataset demo_env publish_req world1)) =
     [\<lparr>a_id = 1000, a_name = ''Alice''\<rparr>, \<lparr>a_id = 1001, a_name = ''Bob''\<rparr>]"
  by code_simp


lemma new_authors_simps:
  "length (new_authors w names) = length names"
  "map a_name (new_authors w names) = names"
  "map a_id (new_authors w names) = [objectIdCounter w ..< objectIdCounter w + length names]"
  by (simp_all add: new_authors_def split_def comp_def)

lemma publish_authors_inserted:
  assumes ok: "publish_request_ok e req"
    and inserts: "\<forall>k<length (p_names e req). outcome_at w k = Ok"
  shows "authorsColl (snd (publishDataset e req w)) =
           authorsColl w @ new_authors w (p_names e req)"
    and "fst (publishDataset e req w) = Returned r \<Longrightarrow> status r = 200 \<Longrightarrow>
           \<exists>d \<in> set (datasets (snd (publishDataset e req w))).
             objectIdFromString e (p_datasetId e req) = Some (ds_id d) \<and>
             uploader d = p_address e req \<and> published d \<and>
             authors d = map a_id (new_authors w (p_names e req))"
proof -
  let ?ids = "map a_id (new_authors w (p_names e req))"
  from publish_reaches_loop [OF ok inserts] obtain w2 where
    run: "publishDataset e req w = publish_tail e req ?ids w2"
    and w2: "authorsColl w2 = authorsColl w @ new_authors w (p_names e req)"
      "datasets w2 = datasets w"
    by blast
  show "authorsColl (snd (publishDataset e req w)) =
           authorsColl w @ new_authors w (p_names e req)"
  proof (cases "objectIdFromString e (p_datasetId e req)")
    case None
    then show ?thesis by (simp add: run publish_tail_no_id w2)
  next
    case (Some i)
    then show ?thesis by (simp add: run publish_tail_loop updateLoop_authors w2)
  qed
  show "\<exists>d \<in> set (datasets (snd (publishDataset e req w))).
             objectIdFromString e (p_datasetId e req) = Some (ds_id d) \<and>
             uploader d = p_address e req \<and> published d \<and>
             authors d = ?ids"
    if r: "fst (publishDataset e req w) = Returned r" and s: "status r = 200"
  proof (cases "objectIdFromString e (p_datasetId e req)")
    case None
    with r s show ?thesis by (auto simp: run publish_tail_no_id respond_def)
  next
    case (Some i)
    let ?loop = "updateLoop 0 (p_datasetId e req) (p_address e req) (p_query e req i)
                   (p_update e req ?ids) w2"
    from r s Some have "fst ?loop = Returned (Some r)"
      by (auto simp: run publish_tail_loop respond_def split: res.splits option.splits)
    from updateLoop_returned [OF this] have
      m: "\<exists>d \<in> set (datasets w2). ds_matches (p_query e req i) d"
      and ds: "datasets (snd ?loop) =
                 update_first (ds_matches (p_query e req i)) (apply_update (p_update e req ?ids))
                   (datasets w2)"
      by simp_all
    from update_first_some [OF m, of "apply_update (p_update e req ?ids)"] obtain d0 where
      d0: "ds_matches (p_query e req i) d0"
      and mem: "apply_update (p_update e req ?ids) d0 \<in> set (datasets (snd ?loop))"
      unfolding ds by blast
    from d0 Some have "objectIdFromString e (p_datasetId e req) =
        Some (ds_id (apply_update (p_update e req ?ids) d0)) \<and>
      uploader (apply_update (p_update e req ?ids) d0) = p_address e req \<and>
      published (apply_update (p_update e req ?ids) d0) \<and>
      authors (apply_update (p_update e req ?ids) d0) = ?ids"
      by (simp add: ds_matches_p_query apply_update_def p_update_def)
    with mem show ?thesis
      by (auto simp: run publish_tail_loop [OF Some])
  qed
qed

lemma publish_insert_fails:
  assumes ok: "publish_request_ok e req"
    and k: "k < length (p_names e req)"
    and before: "\<forall>j<k. outcome_at w j = Ok" and fails: "outcome_at w k = Fail"
  shows "fst (publishDataset e req w) =
           Returned (respond 400 (Error ''Failed to insert author into database'')) \<and>
         authorsColl (snd (publishDataset e req w)) =
           authorsColl w @ take k (new_authors w (p_names e req)) \<and>
         datasets (snd (publishDataset e req w)) = datasets w"
proof -
  from k have "k < length (new_authors w (p_names e req))"
    by (simp add: new_authors_simps)
  moreover from before have "\<forall>j<k. outcome_at (ids_drawn e req w) j = Ok"
    by simp
  moreover from fails have "outcome_at (ids_drawn e req w) k = Fail"
    by simp
  ultimately show ?thesis
    using insertAuthors_first_fail [of k "new_authors w (p_names e req)" "ids_drawn e req w"] ok
    by (simp add: publishDataset_unfold publish_request_ok_def bind_Returned)
qed

text \<open>
  C6. For an accepted publish request with author names \<open>p_names\<close>, of length \<open>n\<close>:
  when the \<open>n\<close> inserts work, the authors collection grows by exactly the \<open>n\<close> new
  records, whose names are the given names in order and whose ids are the next \<open>n\<close> ids
  of the generator, and on the response 200 the published dataset holds these ids in that
  order; when the insert number \<open>k\<close> is the first that reports failure, the response is
  400, the \<open>k\<close> authors inserted before it stay in the collection, and no dataset
  changes.
\<close>

theorem publish_creates_authors:
  assumes "publish_request_ok e req"
  shows "((\<forall>k<length (p_names e req). outcome_at w k = Ok) \<longrightarrow>
            authorsColl (snd (publishDataset e req w)) =
              authorsColl w @ new_authors w (p_names e req) \<and>
            length (new_authors w (p_names e req)) = length (p_names e req) \<and>
            map a_name (new_authors w (p_names e req)) = p_names e req \<and>
            map a_id (new_authors w (p_names e req)) =
              [objectIdCounter w ..< objectIdCounter w + length (p_names e req)] \<and>
            (\<forall>r. fst (publishDataset e req w) = Returned r \<and> status r = 200 \<longrightarrow>
               (\<exists>d \<in> set (datasets (snd (publishDataset e req w))).
                  objectIdFromString e (p_datasetId e req) = Some (ds_id d) \<and>
                  uploader d = p_address e req \<and> published d \<and>
                  authors d = map a_id (new_authors w (p_names e req))))) \<and>
         (\<forall>k<length (p_names e req).
            (\<forall>j<k. outcome_at w j = Ok) \<and> outcome_at w k = Fail \<longrightarrow>
              fst (publishDataset e req w) =
                Returned (respond 400 (Error ''Failed to insert author into database'')) \<and>
              authorsColl (snd (publishDataset e req w)) =
                authorsColl w @ take k (new_authors w (p_names e req)) \<and>
              datasets (snd (publishDataset e req w)) = datasets w)"
  using publish_authors_inserted [OF assms] publish_insert_fails [OF assms]
  by (simp add: new_authors_simps)

theorem publish_creates_authors_witness:
  "p_names demo_env publish_req = [''Alice'', ''Bob''] \<and>
   authorsColl (snd (publishDataset demo_env publish_req world1)) =
     [\<lparr>a_id = 1000, a_name = ''Alice''\<rparr>, \<lparr>a_id = 1001, a_name = ''Bob''\<rparr>] \<and>
   (\<exists>d \<in> set (datasets (snd (publishDataset demo_env publish_req world1))).
      ds_id d = 1 \<and> authors d = [1000, 1001]) \<and>
   fst (publishDataset demo_env publish_req world1_second_insert_fails) =
     Returned (respond 400 (Error ''Failed to insert author into database'')) \<and>
   authorsColl (snd (publishDataset demo_env publish_req world1_second_insert_fails)) =
     [\<lparr>a_id = 1000, a_name = ''Alice''\<rparr>] \<and>
   datasets (snd (publishDataset demo_env publish_req world1_second_insert_fails)) = [ds1, ds2]"
proof -
  have ok: "publish_request_ok demo_env publish_req"
    by code_simp
  have names: "p_names demo_env publish_req = [''Alice'', ''Bob'']"
    by code_simp
  have new1: "new_authors world1 [''Alice'', ''Bob''] =
      [\<lparr>a_id = 1000, a_name = ''Alice''\<rparr>, \<lparr>a_id = 1001, a_name = ''Bob''\<rparr>]"
    "new_authors world1_second_insert_fails [''Alice'', ''Bob''] =
      [\<lparr>a_id = 1000, a_name = ''Alice''\<rparr>, \<lparr>a_id = 1001, a_name = ''Bob''\<rparr>]"
    by code_simp+
  have store: "authorsColl world1 = []" "authorsColl world1_second_insert_fails = []"
    "datasets world1_second_insert_fails = [ds1, ds2]"
    by (simp_all add: world1_def world1_second_insert_fails_def demo_world_def)
  have inserts: "\<forall>k<length (p_names demo_env publish_req). outcome_at world1 k = Ok"
    by (simp add: outcome_at_def world1_def demo_world_def no_faults_def)
  have returned: "fst (publishDataset demo_env publish_req world1) =
      Returned (respond 200 (Message
        ''Successfully published dataset d1 for 0xa11ce00000000000000000000000000000000001''))"
    by code_simp
  have oid: "objectIdFromString demo_env (p_datasetId demo_env publish_req) = Some 1"
    by code_simp
  have fails: "(1::nat) < length (p_names demo_env publish_req)"
    "\<forall>j<1. outcome_at world1_second_insert_fails j = Ok"
    "outcome_at world1_second_insert_fails 1 = Fail"
    by (simp_all add: names outcome_at_def world1_second_insert_fails_def demo_world_def
          second_insert_fails_def)
  from publish_creates_authors [OF ok, of world1] inserts have thm1:
    "authorsColl (snd (publishDataset demo_env publish_req world1)) =
       authorsColl world1 @ new_authors world1 (p_names demo_env publish_req)"
    "\<forall>r. fst (publishDataset demo_env publish_req world1) = Returned r \<and> status r = 200 \<longrightarrow>
       (\<exists>d \<in> set (datasets (snd (publishDataset demo_env publish_req world1))).
          objectIdFromString demo_env (p_datasetId demo_env publish_req) = Some (ds_id d) \<and>
          uploader d = p_address demo_env publish_req \<and> published d \<and>
          authors d = map a_id (new_authors world1 (p_names demo_env publish_req)))"
    by blast+
  from publish_creates_authors [OF ok, of world1_second_insert_fails] fails have thm2:
    "fst (publishDataset demo_env publish_req world1_second_insert_fails) =
       Returned (respond 400 (Error ''Failed to insert author into database'')) \<and>
     authorsColl (snd (publishDataset demo_env publish_req world1_second_insert_fails)) =
       authorsColl world1_second_insert_fails @
       take 1 (new_authors world1_second_insert_fails (p_names demo_env publish_req)) \<and>
     datasets (snd (publishDataset demo_env publish_req world1_second_insert_fails)) =
       datasets world1_second_insert_fails"
    by blast
  from thm1(1) have a: "authorsColl (snd (publishDataset demo_env publish_req world1)) =
     [\<lparr>a_id = 1000, a_name = ''Alice''\<rparr>, \<lparr>a_id = 1001, a_name = ''Bob''\<rparr>]"
    by (simp add: names new1 store)
  from thm1(2) returned have b: "\<exists>d \<in> set (datasets (snd (publishDataset demo_env publish_req world1))).
      ds_id d = 1 \<and> authors d = [1000, 1001]"
    by (auto simp: names new1 oid respond_def)
  from thm2 have c: "fst (publishDataset demo_env publish_req world1_second_insert_fails) =
     Returned (respond 400 (Error ''Failed to insert author into database'')) \<and>
   authorsColl (snd (publishDataset demo_env publish_req world1_second_insert_fails)) =
     [\<lparr>a_id = 1000, a_name = ''Alice''\<rparr>] \<and>
   datasets (snd (publishDataset demo_env publish_req world1_second_insert_fails)) = [ds1, ds2]"
    by (simp add: names new1 store)
  from names a b c show ?thesis by simp
qed

section \<open>Properties of the read handlers\<close>

lemma ds_matches_published_id:
  "ds_matches \<lparr>q_uploader = None, q_id = Some i, q_published = Some True\<rparr> d =
     (ds_id d = i \<and> published d)"
  by (auto simp: ds_matches_def match_field_def)

lemma no_published_match:
  assumes "\<not> resolves_published e req w"
    and "objectIdFromString e (str (query req ''datasetId'')) = Some i"
  shows "filter (ds_matches \<lparr>q_uploader = None, q_id = Some i, q_published = Some True\<rparr>)
           (datasets w) = []"
  using assms by (auto simp: resolves_published_def ds_matches_published_id filter_empty_conv)

lemma chunks_not_found:
  assumes "\<not> resolves_published e req w" and "\<not> falsy (query req ''datasetId'')"
  shows "fst (getPublishedChunksByDatasetId e req w) =
           respond 404 (Error (''Found no chunks whose parent dataset is '' @
                               str (query req ''datasetId'')))"
proof (cases "objectIdFromString e (str (query req ''datasetId''))")
  case None
  with assms(2) show ?thesis
    by (simp add: getPublishedChunksByDatasetId_def)
next
  case (Some i)
  from no_published_match [OF assms(1) Some] assms(2) Some show ?thesis
    by (simp add: getPublishedChunksByDatasetId_def getDatasets_def invoke_def bind_def
          split: outcome.split)
qed

lemma chunks_no_query:
  assumes "\<not> resolves_published e req w"
  shows "calls (snd (getPublishedChunksByDatasetId e req w)) = calls w \<or>
         (\<exists>q. calls (snd (getPublishedChunksByDatasetId e req w)) = calls w @ [GetDatasets q])"
proof (cases "objectIdFromString e (str (query req ''datasetId''))")
  case None
  then show ?thesis
    by (simp add: getPublishedChunksByDatasetId_def)
next
  case (Some i)
  from no_published_match [OF assms(1) Some] Some show ?thesis
    by (simp add: getPublishedChunksByDatasetId_def getDatasets_def invoke_def bind_def
          split: outcome.split)
qed

text \<open>
  C8. When the \<^verbatim>\<open>datasetId\<close> of a list-chunks request is not the id of a published
  dataset, \<^verbatim>\<open>getPublishedChunksByDatasetId\<close> never answers 200 and never returns chunk
  records, and it issues no chunk query; for a datasetId that is given, the response is
  the 404 not-found one (a request without datasetId is answered 400).
\<close>

theorem chunks_only_of_published:
  assumes "\<not> resolves_published e req w"
  shows "status (fst (getPublishedChunksByDatasetId e req w)) \<noteq> 200 \<and>
         (\<forall>cs. payload (fst (getPublishedChunksByDatasetId e req w)) \<noteq> ChunkList cs) \<and>
         (\<forall>q. GetChunks q \<in> set (calls (snd (getPublishedChunksByDatasetId e req w))) \<longrightarrow>
              GetChunks q \<in> set (calls w)) \<and>
         (\<not> falsy (query req ''datasetId'') \<longrightarrow>
            fst (getPublishedChunksByDatasetId e req w) =
              respond 404 (Error (''Found no chunks whose parent dataset is '' @
                                  str (query req ''datasetId''))))"
proof (cases "falsy (query req ''datasetId'')")
  case True
  then show ?thesis
    by (simp add: getPublishedChunksByDatasetId_def respond_def)
next
  case False
  from chunks_not_found [OF assms False] chunks_no_query [OF assms] False show ?thesis
    by (auto simp: respond_def)
qed

theorem chunks_only_of_published_witness:
  "\<not> resolves_published demo_env chunks_req world1 \<and>
   \<not> falsy (query chunks_req ''datasetId'') \<and>
   fst (getPublishedChunksByDatasetId demo_env chunks_req world1) =
     respond 404 (Error ''Found no chunks whose parent dataset is d1'')"
proof -
  have hyp: "\<not> resolves_published demo_env chunks_req world1"
    by code_simp
  have given: "\<not> falsy (query chunks_req ''datasetId'')"
    by code_simp
  have val: "str (query chunks_req ''datasetId'') = ''d1''"
    by code_simp
  from chunks_only_of_published [OF hyp] hyp given val show ?thesis
    by simp
qed

lemma published_by_id_not_found:
  assumes "\<not> falsy (query req ''id'')"
    and "\<not> (\<exists>d \<in> set (datasets w).
              objectIdFromString e (str (query req ''id'')) = Some (ds_id d) \<and> published d)"
  shows "fst (getPublishedDatasets e req w) =
           respond 404 (Error ''There is no published dataset with the specified id'')"
proof (cases "objectIdFromString e (str (query req ''id''))")
  case None
  with assms(1) show ?thesis
    by (simp add: getPublishedDatasets_def getPublishedDatasetById_def)
next
  case (Some i)
  with assms(2) have "filter (ds_matches \<lparr>q_uploader = None, q_id = Some i,
      q_published = Some True\<rparr>) (datasets w) = []"
    by (auto simp: ds_matches_published_id filter_empty_conv)
  with assms(1) Some show ?thesis
    by (simp add: getPublishedDatasets_def getPublishedDatasetById_def getDatasets_def
          invoke_def bind_def split: outcome.split)
qed

lemma list_published_answers_200:
  assumes "falsy (query req ''id'')" and "outcome_at w 0 = Ok"
  shows "fst (getPublishedDatasets e req w) =
           respond 200 (DatasetList (Some (filter published (datasets w))))"
proof -
  have "ds_matches \<lparr>q_uploader = None, q_id = None, q_published = Some True\<rparr> = published"
    by (auto simp: ds_matches_def match_field_def fun_eq_iff)
  with assms show ?thesis
    by (simp add: getPublishedDatasets_def getAllPublishedDatasets_def getDatasets_def
          invoke_def outcome_at_simps)
qed

text \<open>
  C9, on the code. With no published dataset in the store, the list of published
  datasets (no \<^verbatim>\<open>id\<close>) is answered 200 with the empty list, not 404; the lookup
  by id is answered 404.
\<close>

theorem list_published_none_is_200:
  "filter published (datasets world1) = [] \<and>
   falsy (query list_req ''id'') \<and>
   fst (getPublishedDatasets demo_env list_req world1) = respond 200 (DatasetList (Some [])) \<and>
   fst (getPublishedDatasets demo_env by_id_req world1) =
     respond 404 (Error ''There is no published dataset with the specified id'')"
  by code_simp


lemma inner_fold:
  "fold (\<lambda>fileId (m, ids). (m(fileId \<mapsto> v), ids @ [fileId])) xs (m, ids) =
     (\<lambda>x. if x \<in> set xs then Some v else m x, ids @ xs)"
proof (induction xs arbitrary: m ids)
  case Nil
  show ?case by simp
next
  case (Cons a xs)
  have "fold (\<lambda>fileId (m, ids). (m(fileId \<mapsto> v), ids @ [fileId])) (a # xs) (m, ids) =
        fold (\<lambda>fileId (m, ids). (m(fileId \<mapsto> v), ids @ [fileId])) xs (m(a \<mapsto> v), ids @ [a])"
    by simp
  also have "\<dots> = (\<lambda>x. if x \<in> set xs then Some v else (m(a \<mapsto> v)) x, (ids @ [a]) @ xs)"
    by (rule Cons.IH)
  also have "\<dots> = (\<lambda>x. if x \<in> set (a # xs) then Some v else m x, ids @ a # xs)"
    by (auto simp: fun_eq_iff)
  finally show ?case .
qed

lemma find_append:
  "find P (xs @ ys) = (case find P xs of Some x \<Rightarrow> Some x | None \<Rightarrow> find P ys)"
  by (induction xs) simp_all

lemma outer_fold:
  "fold (\<lambda>chunk acc.
           fold (\<lambda>fileId (m, ids). (m(fileId \<mapsto> estuaryId (storageIds chunk)), ids @ [fileId]))
             (fileIds chunk) acc) cs (m, ids) =
     (\<lambda>x. case find (\<lambda>c. x \<in> set (fileIds c)) (rev cs) of
             Some c \<Rightarrow> Some (estuaryId (storageIds c))
           | None \<Rightarrow> m x,
      ids @ concat (map fileIds cs))"
proof (induction cs arbitrary: m ids)
  case Nil
  show ?case by simp
next
  case (Cons c cs)
  let ?step = "\<lambda>chunk acc.
           fold (\<lambda>fileId (m, ids). (m(fileId \<mapsto> estuaryId (storageIds chunk)), ids @ [fileId]))
             (fileIds chunk) acc"
  let ?m' = "\<lambda>x. if x \<in> set (fileIds c) then Some (estuaryId (storageIds c)) else m x"
  have "fold ?step (c # cs) (m, ids) = fold ?step cs (?m', ids @ fileIds c)"
    by (simp add: inner_fold)
  also have "\<dots> = (\<lambda>x. case find (\<lambda>c. x \<in> set (fileIds c)) (rev cs) of
                         Some c \<Rightarrow> Some (estuaryId (storageIds c))
                       | None \<Rightarrow> ?m' x,
                    (ids @ fileIds c) @ concat (map fileIds cs))"
    by (rule Cons.IH)
  also have "\<dots> = (\<lambda>x. case find (\<lambda>c. x \<in> set (fileIds c)) (rev (c # cs)) of
                         Some c \<Rightarrow> Some (estuaryId (storageIds c))
                       | None \<Rightarrow> m x,
                    ids @ concat (map fileIds (c # cs)))"
    by (auto simp: fun_eq_iff find_append split: option.split)
  finally show ?case .
qed

lemma collectFileIds_eq:
  "collectFileIds cs =
     (\<lambda>x. map_option (\<lambda>c. estuaryId (storageIds c)) (find (\<lambda>c. x \<in> set (fileIds c)) (rev cs)),
      concat (map fileIds cs))"
  by (simp add: collectFileIds_def outer_fold fun_eq_iff split: option.split)

lemma find_unique:
  "x \<in> set xs \<Longrightarrow> P x \<Longrightarrow> (\<forall>y \<in> set xs. P y \<longrightarrow> y = x) \<Longrightarrow> find P xs = Some x"
proof (induction xs)
  case Nil
  then show ?case by simp
next
  case (Cons a xs)
  show ?case
  proof (cases "P a")
    case True
    with Cons.prems(3) have "a = x"
      by simp
    with True show ?thesis
      by simp
  next
    case False
    with Cons.prems(1,2) have "x \<in> set xs"
      by auto
    moreover from Cons.prems(3) have "\<forall>y \<in> set xs. P y \<longrightarrow> y = x"
      by simp
    ultimately have "find P xs = Some x"
      using Cons.prems(2) by (intro Cons.IH)
    with False show ?thesis
      by simp
  qed
qed

text \<open>What the handler answers when its three queries work.\<close>

lemma getFileMetadata_reads:
  assumes "\<not> falsy (query req ''address'')"
    and "outcome_at w 0 = Ok" "outcome_at w 1 = Ok" "outcome_at w 2 = Ok"
  shows "fst (getFileMetadata e req w) =
     respond 200 (FileList
       (map (\<lambda>f. \<lparr>fe_file = f,
                  fe_estuaryId = fst (collectFileIds
                    (filter (\<lambda>c. c_id c \<in> set (concat (map chunkIds
                       (filter (\<lambda>d. uploader d = toLowerCase (str (query req ''address'')))
                          (datasets w))))) (chunks w))) (f_id f)\<rparr>)
          (filter (\<lambda>f. f_id f \<in> set (snd (collectFileIds
                    (filter (\<lambda>c. c_id c \<in> set (concat (map chunkIds
                       (filter (\<lambda>d. uploader d = toLowerCase (str (query req ''address'')))
                          (datasets w))))) (chunks w)))))
             (commonsFiles w))))"
proof -
  have q: "ds_matches \<lparr>q_uploader = Some a, q_id = None, q_published = None\<rparr> = (\<lambda>d. uploader d = a)"
    for a
    by (simp add: ds_matches_def match_field_def fun_eq_iff)
  have c: "chunk_matches (ChunkIdIn ids) = (\<lambda>c. c_id c \<in> set ids)" for ids
    by (simp add: fun_eq_iff)
  have f: "file_matches (FileIdIn ids) = (\<lambda>f. f_id f \<in> set ids)" for ids
    by (simp add: fun_eq_iff)
  from assms show ?thesis
    unfolding getFileMetadata_def outcome_at_simps
    by (simp add: Let_def getDatasets_def getChunks_def getCommonsFiles_def invoke_def
          bind_def q c f split_def)
qed

lemma owned_chunks:
  assumes "store_consistent w" and "c \<in> set (chunks w)"
  shows "(c_id c \<in> set (concat (map chunkIds (filter (\<lambda>d. uploader d = addr) (datasets w))))) =
         (\<exists>d \<in> set (datasets w). datasetId c = ds_id d \<and> uploader d = addr)"
  using assms by (auto simp: store_consistent_def)

lemma owned_files:
  assumes cons: "store_consistent w" and f: "f \<in> set (commonsFiles w)"
  shows "(f_id f \<in> set (concat (map fileIds
            (filter (\<lambda>c. c_id c \<in> set (concat (map chunkIds
               (filter (\<lambda>d. uploader d = addr) (datasets w))))) (chunks w))))) =
         owner_chain w addr f"
proof
  assume "f_id f \<in> set (concat (map fileIds
            (filter (\<lambda>c. c_id c \<in> set (concat (map chunkIds
               (filter (\<lambda>d. uploader d = addr) (datasets w))))) (chunks w))))"
  then obtain c where c: "c \<in> set (chunks w)"
    and kept: "c_id c \<in> set (concat (map chunkIds (filter (\<lambda>d. uploader d = addr) (datasets w))))"
    and listed: "f_id f \<in> set (fileIds c)"
    by auto
  from kept owned_chunks [OF cons c, of addr] obtain d where
    d: "d \<in> set (datasets w)" "datasetId c = ds_id d" "uploader d = addr"
    by blast
  from cons c f listed have "chunkId f = c_id c"
    by (auto simp: store_consistent_def)
  with c d show "owner_chain w addr f"
    unfolding owner_chain_def by blast
next
  assume "owner_chain w addr f"
  then obtain c d where c: "c \<in> set (chunks w)" and d: "d \<in> set (datasets w)"
    and link: "chunkId f = c_id c" "datasetId c = ds_id d" "uploader d = addr"
    unfolding owner_chain_def by blast
  from d link owned_chunks [OF cons c, of addr]
  have kept: "c_id c \<in> set (concat (map chunkIds (filter (\<lambda>d. uploader d = addr) (datasets w))))"
    by blast
  from cons c f link have listed: "f_id f \<in> set (fileIds c)"
    by (auto simp: store_consistent_def)
  from c kept listed show "f_id f \<in> set (concat (map fileIds
            (filter (\<lambda>c. c_id c \<in> set (concat (map chunkIds
               (filter (\<lambda>d. uploader d = addr) (datasets w))))) (chunks w))))"
    by auto
qed

lemma attached_id:
  assumes cons: "store_consistent w" and f: "f \<in> set (commonsFiles w)"
    and own: "owner_chain w addr f"
  shows "map_option (\<lambda>c. estuaryId (storageIds c))
           (find (\<lambda>c. f_id f \<in> set (fileIds c))
              (rev (filter (\<lambda>c. c_id c \<in> set (concat (map chunkIds
                 (filter (\<lambda>d. uploader d = addr) (datasets w))))) (chunks w)))) =
         map_option (\<lambda>c. estuaryId (storageIds c)) (chunk_of w f)"
proof -
  from own obtain c d where c: "c \<in> set (chunks w)" and d: "d \<in> set (datasets w)"
    and link: "chunkId f = c_id c" "datasetId c = ds_id d" "uploader d = addr"
    by (auto simp: owner_chain_def)
  from cons have dist: "distinct (map c_id (chunks w))"
    by (simp add: store_consistent_def)
  have uniq: "c' = c" if "c' \<in> set (chunks w)" "c_id c' = c_id c" for c'
    using that c dist by (meson distinct_map inj_onD)
  from cons c f link have listed: "f_id f \<in> set (fileIds c)"
    by (auto simp: store_consistent_def)
  from owned_chunks [OF cons c, of addr] d link
  have kept: "c \<in> set (rev (filter (\<lambda>c. c_id c \<in> set (concat (map chunkIds
                 (filter (\<lambda>d. uploader d = addr) (datasets w))))) (chunks w)))"
    using c by auto
  have only: "\<forall>c' \<in> set (rev (filter (\<lambda>c. c_id c \<in> set (concat (map chunkIds
                 (filter (\<lambda>d. uploader d = addr) (datasets w))))) (chunks w))).
      f_id f \<in> set (fileIds c') \<longrightarrow> c' = c"
    using cons f link uniq by (auto simp: store_consistent_def)
  have left: "find (\<lambda>c. f_id f \<in> set (fileIds c))
              (rev (filter (\<lambda>c. c_id c \<in> set (concat (map chunkIds
                 (filter (\<lambda>d. uploader d = addr) (datasets w))))) (chunks w))) = Some c"
    by (rule find_unique [OF kept listed only])
  have right: "chunk_of w f = Some c"
    unfolding chunk_of_def
    by (rule find_unique [OF c]) (use link uniq in auto)
  show ?thesis
    by (simp only: left right)
qed

text \<open>
  Without the invariant: the files listed by a chunk that is listed by a dataset of the
  address, each with the estuaryId of the last such chunk that lists it.
\<close>

lemma getFileMetadata_forward:
  assumes "\<not> falsy (query req ''address'')"
    and "outcome_at w 0 = Ok" "outcome_at w 1 = Ok" "outcome_at w 2 = Ok"
    and cs: "cs = filter (\<lambda>c. \<exists>d \<in> set (datasets w).
                  uploader d = toLowerCase (str (query req ''address'')) \<and>
                  c_id c \<in> set (chunkIds d)) (chunks w)"
  shows "fst (getFileMetadata e req w) =
     respond 200 (FileList
       (map (\<lambda>f. \<lparr>fe_file = f,
                  fe_estuaryId = map_option (\<lambda>c. estuaryId (storageIds c))
                    (find (\<lambda>c. f_id f \<in> set (fileIds c)) (rev cs))\<rparr>)
          (filter (\<lambda>f. \<exists>c \<in> set cs. f_id f \<in> set (fileIds c)) (commonsFiles w))))"
proof -
  have "cs = filter (\<lambda>c. c_id c \<in> set (concat (map chunkIds
               (filter (\<lambda>d. uploader d = toLowerCase (str (query req ''address'')))
                  (datasets w))))) (chunks w)"
    unfolding cs by (rule filter_cong [OF refl]) auto
  moreover have "(\<lambda>f. f_id f \<in> set (concat (map fileIds cs))) =
                 (\<lambda>f. \<exists>c \<in> set cs. f_id f \<in> set (fileIds c))"
    by auto
  ultimately show ?thesis
    unfolding getFileMetadata_reads [OF assms(1-4)] collectFileIds_eq fst_conv snd_conv
    by simp
qed

text \<open>
  C10. In a store that satisfies the relational invariant, when the three queries work,
  \<^verbatim>\<open>getFileMetadata\<close> answers 200 with exactly the files of the owner chain of the
  lower-cased address, in store order, each with the estuaryId of the chunk that lists it
  (the chunk its \<^verbatim>\<open>chunkId\<close> names).
\<close>

theorem files_of_owner_exact:
  assumes "\<not> falsy (query req ''address'')" and "store_consistent w"
    and "outcome_at w 0 = Ok" and "outcome_at w 1 = Ok" and "outcome_at w 2 = Ok"
  shows "fst (getFileMetadata e req w) =
           respond 200 (FileList (files_of_owner w (toLowerCase (str (query req ''address''))))) \<and>
         (\<forall>x \<in> set (files_of_owner w (toLowerCase (str (query req ''address'')))).
            fe_file x \<in> set (commonsFiles w) \<and>
            owner_chain w (toLowerCase (str (query req ''address''))) (fe_file x) \<and>
            (\<exists>c \<in> set (chunks w). c_id c = chunkId (fe_file x) \<and>
               f_id (fe_file x) \<in> set (fileIds c) \<and>
               fe_estuaryId x = Some (estuaryId (storageIds c))))"
proof
  let ?addr = "toLowerCase (str (query req ''address''))"
  let ?cs = "filter (\<lambda>c. c_id c \<in> set (concat (map chunkIds
               (filter (\<lambda>d. uploader d = ?addr) (datasets w))))) (chunks w)"
  have sel: "filter (\<lambda>f. f_id f \<in> set (concat (map fileIds ?cs))) (commonsFiles w) =
             filter (owner_chain w ?addr) (commonsFiles w)"
    by (rule filter_cong [OF refl]) (rule owned_files [OF assms(2)])
  have att: "map (\<lambda>f. \<lparr>fe_file = f,
                  fe_estuaryId = map_option (\<lambda>c. estuaryId (storageIds c))
                    (find (\<lambda>c. f_id f \<in> set (fileIds c)) (rev ?cs))\<rparr>)
               (filter (owner_chain w ?addr) (commonsFiles w)) =
             files_of_owner w ?addr"
    unfolding files_of_owner_def
  proof (rule map_cong [OF refl])
    fix f
    assume "f \<in> set (filter (owner_chain w ?addr) (commonsFiles w))"
    then have "f \<in> set (commonsFiles w)" "owner_chain w ?addr f"
      by simp_all
    from attached_id [OF assms(2) this]
    show "\<lparr>fe_file = f,
            fe_estuaryId = map_option (\<lambda>c. estuaryId (storageIds c))
              (find (\<lambda>c. f_id f \<in> set (fileIds c)) (rev ?cs))\<rparr> =
          \<lparr>fe_file = f,
            fe_estuaryId = map_option (\<lambda>c. estuaryId (storageIds c)) (chunk_of w f)\<rparr>"
      by (simp only:)
  qed
  show "fst (getFileMetadata e req w) = respond 200 (FileList (files_of_owner w ?addr))"
    unfolding getFileMetadata_reads [OF assms(1,3,4,5)] collectFileIds_eq fst_conv snd_conv
      sel att ..
  show "\<forall>x \<in> set (files_of_owner w ?addr).
            fe_file x \<in> set (commonsFiles w) \<and> owner_chain w ?addr (fe_file x) \<and>
            (\<exists>c \<in> set (chunks w). c_id c = chunkId (fe_file x) \<and>
               f_id (fe_file x) \<in> set (fileIds c) \<and>
               fe_estuaryId x = Some (estuaryId (storageIds c)))"
  proof
    fix x
    assume "x \<in> set (files_of_owner w ?addr)"
    then obtain f where f: "f \<in> set (commonsFiles w)" and own: "owner_chain w ?addr f"
      and x: "x = \<lparr>fe_file = f,
                  fe_estuaryId = map_option (\<lambda>c. estuaryId (storageIds c)) (chunk_of w f)\<rparr>"
      by (auto simp: files_of_owner_def)
    from own obtain c where c: "c \<in> set (chunks w)" and link: "chunkId f = c_id c"
      by (auto simp: owner_chain_def)
    from assms(2) have dist: "distinct (map c_id (chunks w))"
      by (simp add: store_consistent_def)
    have uniq: "c' = c" if "c' \<in> set (chunks w)" "c_id c' = c_id c" for c'
      using that c dist by (meson distinct_map inj_onD)
    have right: "chunk_of w f = Some c"
      unfolding chunk_of_def
      by (rule find_unique [OF c]) (use link uniq in auto)
    from assms(2) c f link have "f_id f \<in> set (fileIds c)"
      by (auto simp: store_consistent_def)
    with f own c link right show "fe_file x \<in> set (commonsFiles w) \<and>
        owner_chain w ?addr (fe_file x) \<and>
        (\<exists>c \<in> set (chunks w). c_id c = chunkId (fe_file x) \<and>
           f_id (fe_file x) \<in> set (fileIds c) \<and>
           fe_estuaryId x = Some (estuaryId (storageIds c)))"
      by (auto simp: x)
  qed
qed

theorem files_of_owner_exact_witness:
  "store_consistent world1 \<and>
   fst (getFileMetadata demo_env files_req world1) =
     respond 200 (FileList [\<lparr>fe_file = fl1, fe_estuaryId = Some (Num 17)\<rparr>,
                            \<lparr>fe_file = fl2, fe_estuaryId = Some (Num 17)\<rparr>])"
proof -
  have given: "\<not> falsy (query files_req ''address'')"
    by code_simp
  have cons: "store_consistent world1"
    by code_simp
  have reads: "outcome_at world1 0 = Ok" "outcome_at world1 1 = Ok" "outcome_at world1 2 = Ok"
    by code_simp+
  have val: "files_of_owner world1 (toLowerCase (str (query files_req ''address''))) =
      [\<lparr>fe_file = fl1, fe_estuaryId = Some (Num 17)\<rparr>,
       \<lparr>fe_file = fl2, fe_estuaryId = Some (Num 17)\<rparr>]"
    by code_simp
  from files_of_owner_exact [OF given cons reads, THEN conjunct1] cons val show ?thesis
    by simp
qed

end
